theory Spec2Isabelle
  imports Complex_Main "HOL-Library.Sublist"
begin

section \<open>Python strings\<close>

text \<open>
  A Python \<open>str\<close> is a \<open>string\<close>. The three string operations of the two scripts are
  the substring test \<open>sub in s\<close>, \<open>s.replace(old, new)\<close> and \<open>s.startswith(p)\<close>
  (the library's \<open>prefix\<close>).
\<close>

fun str_contains :: "string \<Rightarrow> string \<Rightarrow> bool" where
  "str_contains sub [] = (sub = [])"
| "str_contains sub (c # cs) = (prefix sub (c # cs) \<or> str_contains sub cs)"

text \<open>
  \<open>s.replace(old, new)\<close> replaces the occurrences of \<open>old\<close> from the left, without
  overlap; for an empty \<open>old\<close> Python puts \<open>new\<close> before every character and at the end.
\<close>

function str_replace :: "string \<Rightarrow> string \<Rightarrow> string \<Rightarrow> string" where
  "str_replace s old new =
     (if old = [] then new @ concat (map (\<lambda>c. c # new) s)
      else if s = [] then []
      else if prefix old s then new @ str_replace (drop (length old) s) old new
      else hd s # str_replace (tl s) old new)"
  by pat_completeness auto
termination
  by (relation "measure (\<lambda>(s, old, new). length s)") auto

declare str_replace.simps [simp del]

section \<open>The chat client: candidate agent-card URLs\<close>

text \<open>
  \<open>SimpleA2AClient._get_agent_card_urls\<close> (the leading underscore of the name is dropped).
\<close>

definition get_agent_card_urls :: "string \<Rightarrow> string list" where
  "get_agent_card_urls agent_url =
     (let urls = [];
          urls = (if str_contains ''/a2a'' agent_url
                  then urls @ [str_replace agent_url ''/a2a'' ''/.well-known/agent-card.json'']
                  else urls);
          urls = (if str_contains ''localhost:3003'' agent_url
                  then urls @ [str_replace (str_replace agent_url ''/api/rooms/'' ''/rooms/'')
                                 ''/a2a'' ''/agent-card.json'']
                  else urls);
          urls = urls @ [agent_url @ ''/.well-known/agent-card.json'']
      in urls)"

section \<open>Values of the SDK and of the HTTP libraries\<close>

text \<open>
  The a2a SDK, httpx, requests and pydantic are not part of the repository. Their types
  are modelled with the fields the two scripts read, and their calls are fields of an
  environment record \<open>env\<close>: each call answers with a value or with an exception.
\<close>

datatype json =
    JNull
  | JBool bool
  | JInt int
  | JFloat real
  | JStr string
  | JArr "json list"
  | JObj "(string \<times> json) list"

text \<open>Python's truth value of a parsed JSON document (\<open>not agent_card_data\<close>).\<close>

fun truthy :: "json \<Rightarrow> bool" where
  "truthy JNull = False"
| "truthy (JBool b) = b"
| "truthy (JInt i) = (i \<noteq> 0)"
| "truthy (JFloat r) = (r \<noteq> 0)"
| "truthy (JStr s) = (s \<noteq> [])"
| "truthy (JArr xs) = (xs \<noteq> [])"
| "truthy (JObj kvs) = (kvs \<noteq> [])"

datatype loc_item = LocName string | LocIndex int

record error_details =
  err_loc :: "loc_item list"
  err_msg :: string
  err_input :: "json option"
  err_ctx :: "json option"

text \<open>
  The exception classes the scripts name in an \<open>except\<close> clause or can meet, each a
  subclass of \<open>Exception\<close>: \<open>requests.exceptions.Timeout\<close>, \<open>ConnectionError\<close> and
  \<open>HTTPError\<close> (with the status code and the text of its response),
  \<open>json.JSONDecodeError\<close>, pydantic's \<open>ValidationError\<close> (with \<open>e.errors()\<close>), the
  built-in \<open>TypeError\<close> and \<open>AttributeError\<close>, and any other class by its name.
\<close>

datatype exn =
    Timeout string
  | ConnectionError string
  | HTTPError int string
  | JSONDecodeError string
  | ValidationError "error_details list"
  | TypeError string
  | AttributeError string
  | OtherException string string

datatype TaskState =
    submitted | working | input_required | completed | canceled | failed
  | rejected | auth_required | unknown

datatype Role = agent | user

datatype Part = TextPart string | OtherPart

record Message =
  message_id :: string
  role :: Role
  parts :: "Part list"

text \<open>
  A fetched task is the SDK's \<open>Task\<close>: its \<open>status\<close> is a \<open>TaskStatus\<close> with a
  \<open>state\<close> and an optional \<open>message\<close>, its \<open>history\<close> an optional list of
  \<open>Message\<close>, and every \<open>Message\<close> has a \<open>message_id\<close>. On such values the
  \<open>hasattr\<close> and \<open>isinstance\<close> tests of the polling loop are true.
\<close>

record TaskStatus =
  state :: TaskState
  message :: "Message option"

record Task =
  task_id :: string
  status :: TaskStatus
  history :: "Message list option"

record TaskQueryParams =
  query_id :: string
  history_length :: int

record TaskStatusUpdateEvent =
  update_task_id :: string
  update_state :: TaskState

text \<open>
  The agent card as the SDK's types declare it, with the fields the scripts read. A
  field that the SDK declares optional is an \<open>option\<close>: the protocol version and the
  preferred transport of the card, its provider and its additional interfaces, the
  flags of the capabilities and their list of extensions, and the description and the
  \<open>required\<close> flag of an extension.
\<close>

record AgentProvider =
  organization :: string
  provider_url :: string

record AgentExtension =
  ext_uri :: string
  ext_description :: "string option"
  ext_required :: "bool option"

record AgentCapabilities =
  streaming :: "bool option"
  push_notifications :: "bool option"
  state_transition_history :: "bool option"
  extensions :: "AgentExtension list option"

record AgentSkill =
  skill_name :: string
  skill_id :: string
  skill_description :: string
  skill_tags :: "string list"

record AgentInterface =
  interface_url :: string
  interface_transport :: string

record AgentCard =
  card_name :: string
  protocol_version :: "string option"
  card_description :: string
  card_url :: string
  card_version :: string
  preferred_transport :: "string option"
  provider :: "AgentProvider option"
  capabilities :: AgentCapabilities
  skills :: "AgentSkill list"
  additional_interfaces :: "AgentInterface list option"
  default_input_modes :: "string list"
  default_output_modes :: "string list"

datatype a2a_client = A2AClient AgentCard

datatype http_client_state = Open | Closed

record response =
  status_code :: int
  resp_text :: string
  resp_json :: "exn + json"

section \<open>Output and calls as a trace of events\<close>

text \<open>
  One \<open>print\<close> call is one \<open>Print\<close> event holding the pieces of its text in order: the
  literal parts of the (f-)string and the values put into it. \<open>U n\<close> is the character
  with code point \<open>n\<close> of a literal (the pictographs and arrows of the messages), \<open>NL\<close>
  a newline in a literal. \<open>PrintDump v\<close> is \<open>print(json.dumps(v, indent=2))\<close> and
  \<open>PrintModel c\<close> the same for \<open>c.model_dump(mode='json', exclude_none=True)\<close>. The
  other events are the calls into the libraries, with their arguments.
\<close>

datatype piece =
    T string
  | U nat
  | NL
  | I int
  | F real
  | OptS "string option"
  | OptB "bool option"
  | St "TaskState option"
  | J json
  | Loc loc_item
  | E exn
  | TypeName exn

datatype event =
    Print "piece list"
  | PrintDump json
  | PrintModel AgentCard
  | HttpxGet string
  | RequestsGet string
  | ModelValidate json
  | FactoryCreate AgentCard
  | Aclose
  | AsyncioSleep real
  | GetTask TaskQueryParams
  | SendTaskStatusUpdate TaskStatusUpdateEvent

record env =
  httpx_get :: "nat \<Rightarrow> string \<Rightarrow> exn + response"
  requests_get :: "string \<Rightarrow> exn + response"
  model_validate :: "json \<Rightarrow> exn + AgentCard"
  factory_create :: "AgentCard \<Rightarrow> exn + a2a_client"
  get_task :: "int \<Rightarrow> TaskQueryParams \<Rightarrow> exn + Task"
  get_message_text :: "Message \<Rightarrow> string"
  new_status_update :: "string \<Rightarrow> TaskState \<Rightarrow> exn + TaskStatusUpdateEvent"
  send_task_status_update :: "TaskStatusUpdateEvent \<Rightarrow> exn + unit"

text \<open>
  \<open>httpx_get env i url\<close> is the answer to the \<open>i\<close>-th GET of \<open>connect\<close> (counted from 0),
  \<open>get_task env n params\<close> the answer to the fetch of poll number \<open>n\<close>: the server may
  answer differently each time. \<open>get_message_text\<close> is the SDK's helper that joins the
  text parts of a message, taken as a function to a string.
\<close>

record client_state =
  agent_url :: string
  client :: "a2a_client option"
  http_client :: "http_client_state option"
  current_task :: "Task option"

section \<open>The chat client: connect\<close>

text \<open>
  The \<open>for url in card_urls\<close> loop of \<open>connect\<close> with \<open>agent_card_data\<close> as its result
  (\<open>None\<close> is \<open>JNull\<close>): a GET that raises, an answer whose status is not 200 and a body
  that \<open>response.json()\<close> cannot parse all lead to the next URL; the first parsed body of
  a 200 answer ends the loop.
\<close>

fun fetch_agent_card :: "env \<Rightarrow> nat \<Rightarrow> string list \<Rightarrow> event list \<times> json" where
  "fetch_agent_card env i [] = ([], JNull)"
| "fetch_agent_card env i (url # card_urls) =
     (let tr = [Print [T ''   Trying: '', T url], HttpxGet url] in
      case httpx_get env i url of
        Inl e \<Rightarrow>
          (case fetch_agent_card env (Suc i) card_urls of (tr', d) \<Rightarrow> (tr @ tr', d))
      | Inr response \<Rightarrow>
          if status_code response = 200 then
            (case resp_json response of
               Inl e \<Rightarrow>
                 (case fetch_agent_card env (Suc i) card_urls of (tr', d) \<Rightarrow> (tr @ tr', d))
             | Inr agent_card_data \<Rightarrow>
                 (tr @ [Print [T ''   '', U 0x2705, T '' Found agent card at: '', T url]],
                  agent_card_data))
          else
            (case fetch_agent_card env (Suc i) card_urls of (tr', d) \<Rightarrow> (tr @ tr', d)))"

text \<open>
  \<open>'version' in data\<close> and \<open>data['version'] = v\<close> on a parsed JSON value: a key test and
  an insertion on a dict (a new key goes last); on a list and a string \<open>in\<close> is a
  membership or substring test and the assignment raises; on a number or a boolean
  \<open>in\<close> raises.
\<close>

fun py_in :: "string \<Rightarrow> json \<Rightarrow> exn + bool" where
  "py_in k (JObj kvs) = Inr (k \<in> fst ` set kvs)"
| "py_in k (JArr xs) = Inr (JStr k \<in> set xs)"
| "py_in k (JStr s) = Inr (str_contains k s)"
| "py_in k _ = Inl (TypeError ''argument is not iterable'')"

fun dict_set :: "(string \<times> json) list \<Rightarrow> string \<Rightarrow> json \<Rightarrow> (string \<times> json) list" where
  "dict_set [] k v = [(k, v)]"
| "dict_set ((k', v') # kvs) k v = (if k' = k then (k, v) # kvs else (k', v') # dict_set kvs k v)"

fun py_setitem :: "json \<Rightarrow> string \<Rightarrow> json \<Rightarrow> exn + json" where
  "py_setitem (JObj kvs) k v = Inr (JObj (dict_set kvs k v))"
| "py_setitem _ k v = Inl (TypeError ''object does not support item assignment'')"

text \<open>Lines 80 and 81 of the client: the compatibility fix-up of the fetched data.\<close>

definition add_missing_version :: "json \<Rightarrow> exn + json" where
  "add_missing_version agent_card_data =
     (case py_in ''version'' agent_card_data of
        Inl e \<Rightarrow> Inl e
      | Inr present \<Rightarrow>
          if \<not> present then py_setitem agent_card_data ''version'' (JStr ''1.0.0'')
          else Inr agent_card_data)"

text \<open>The handler of the outer \<open>try\<close> of \<open>connect\<close>.\<close>

definition connect_failed ::
  "client_state \<Rightarrow> event list \<Rightarrow> exn \<Rightarrow> client_state \<times> event list \<times> bool" where
  "connect_failed self tr e =
     (let tr = tr @ [Print [U 0x274C, T '' Connection failed: '', E e]] in
      case http_client self of
        None \<Rightarrow> (self, tr, False)
      | Some h \<Rightarrow> (self\<lparr>http_client := Some Closed\<rparr>, tr @ [Aclose], False))"

definition connect :: "env \<Rightarrow> client_state \<Rightarrow> client_state \<times> event list \<times> bool" where
  "connect env self0 =
     (let tr0 = [Print [U 0x1F50C, T '' Connecting to: '', T (agent_url self0)]];
          self = self0\<lparr>http_client := Some Open\<rparr>;
          card_urls = get_agent_card_urls (agent_url self)
      in case fetch_agent_card env 0 card_urls of
        (tr1, agent_card_data) \<Rightarrow>
          if \<not> truthy agent_card_data then
            (self,
             tr0 @ tr1 @
               [Print [U 0x274C, T '' Could not fetch agent card from any URL pattern'']],
             False)
          else
            (case add_missing_version agent_card_data of
               Inl e \<Rightarrow> connect_failed self (tr0 @ tr1) e
             | Inr agent_card_data \<Rightarrow>
                 (case model_validate env agent_card_data of
                    Inl e \<Rightarrow>
                      connect_failed self (tr0 @ tr1 @ [ModelValidate agent_card_data]) e
                  | Inr agent_card \<Rightarrow>
                      (let tr2 = tr0 @ tr1 @
                             [ModelValidate agent_card_data,
                              Print [U 0x2705, T '' Connected to: '', T (card_name agent_card)],
                              Print [T ''   Protocol: v'', OptS (protocol_version agent_card)],
                              Print [T ''   Transport: '', OptS (preferred_transport agent_card)],
                              FactoryCreate agent_card]
                       in case factory_create env agent_card of
                            Inl e \<Rightarrow> connect_failed self tr2 e
                          | Inr c \<Rightarrow>
                              (self\<lparr>client := Some c\<rparr>,
                               tr2 @ [Print [U 0x2705, T '' Client initialized successfully'', NL]],
                               True)))))"

section \<open>The chat client: poll_for_updates\<close>

text \<open>The local variables of the loop other than \<open>poll_count\<close>.\<close>

record poll_vars =
  last_state :: "TaskState option"
  messages_received :: "string list"
  last_agent_message :: "Message option"

text \<open>Lines 148 to 156: the message of the task's status.\<close>

definition check_status_message :: "TaskStatus \<Rightarrow> poll_vars \<Rightarrow> poll_vars" where
  "check_status_message st v =
     (case message st of
        None \<Rightarrow> v
      | Some msg \<Rightarrow>
          (let msg_id = message_id msg in
           if msg_id \<notin> set (messages_received v) then
             (let v = v\<lparr>messages_received := messages_received v @ [msg_id]\<rparr> in
              if role msg = agent then v\<lparr>last_agent_message := Some msg\<rparr> else v)
           else v))"

text \<open>Lines 160 to 164: the loop over \<open>task.history\<close>.\<close>

fun check_history :: "Message list \<Rightarrow> poll_vars \<Rightarrow> poll_vars" where
  "check_history [] v = v"
| "check_history (item # items) v =
     check_history items
       (if message_id item \<notin> set (messages_received v) then
          (let v = v\<lparr>messages_received := messages_received v @ [message_id item]\<rparr> in
           if role item = agent then v\<lparr>last_agent_message := Some item\<rparr> else v)
        else v)"

definition show_message_text :: "env \<Rightarrow> Message \<Rightarrow> event" where
  "show_message_text env m =
     (let message_text = get_message_text env m in
      if message_text \<noteq> [] then Print [T message_text]
      else Print [T ''[No text content in agent message]''])"

text \<open>
  Lines 167 to 199: whether to stop polling. The result is the client (with
  \<open>current_task\<close> replaced when the loop stops), the output, and whether \<open>break\<close> is
  reached.
\<close>

definition check_stop ::
  "env \<Rightarrow> client_state \<Rightarrow> Task \<Rightarrow> poll_vars \<Rightarrow> client_state \<times> event list \<times> bool" where
  "check_stop env self task v =
     (if state (status task) = input_required then
        (self\<lparr>current_task := Some task\<rparr>,
         (case last_agent_message v of
            Some m \<Rightarrow>
              [Print [NL, T ''   '', U 0x2705, T '' Agent responded. Stopping polls.'', NL],
               Print [U 0x1F916, T '' Agent:''],
               show_message_text env m]
          | None \<Rightarrow>
              [Print [NL, T ''   '', U 0x2139, U 0xFE0F,
                      T '' Reached input_required state. Stopping polls.''],
               Print [T ''   (No agent message found in status)'']]),
         True)
      else if state (status task) \<in> set [completed, failed, canceled] then
        (self\<lparr>current_task := Some task\<rparr>,
         [Print [NL, T ''   Task '', St (Some (state (status task))), T ''. Stopping polls.'']] @
         (case last_agent_message v of
            Some m \<Rightarrow>
              if state (status task) = completed
              then [Print [NL, U 0x1F916, T '' Agent (final message):''], show_message_text env m]
              else []
          | None \<Rightarrow> []),
         True)
      else (self, [], False))"

definition poll_error :: "exn \<Rightarrow> event" where
  "poll_error e = Print [T ''   Poll error: '', E e]"

text \<open>
  One run of the loop body, after \<open>poll_count += 1\<close>. Everything after the sleep is
  inside the \<open>try\<close>: reading \<open>self.current_task.id\<close> and \<open>self.client.get_task\<close> raises
  \<open>AttributeError\<close> when the object is \<open>None\<close>, the fetch itself may raise, and the
  handler prints the error and lets the loop go on.
\<close>

definition poll_body ::
  "env \<Rightarrow> real \<Rightarrow> client_state \<Rightarrow> int \<Rightarrow> poll_vars \<Rightarrow>
     client_state \<times> poll_vars \<times> event list \<times> bool" where
  "poll_body env interval self poll_count v =
     (let tr = [Print [NL, T ''   Poll #'', I poll_count, T '' (waiting '', F interval, T ''s)...''],
                AsyncioSleep interval]
      in case current_task self of
        None \<Rightarrow>
          (self, v, tr @ [poll_error (AttributeError ''NoneType object has no attribute id'')],
           False)
      | Some cur \<Rightarrow>
          (let params = \<lparr>query_id = task_id cur, history_length = 100\<rparr>;
               tr = tr @ [Print [T ''   Checking task '', T (task_id cur), T ''...'']]
           in case client self of
             None \<Rightarrow>
               (self, v,
                tr @ [poll_error (AttributeError ''NoneType object has no attribute get_task'')],
                False)
           | Some c \<Rightarrow>
               (case get_task env poll_count params of
                  Inl e \<Rightarrow> (self, v, tr @ [GetTask params, poll_error e], False)
                | Inr task \<Rightarrow>
                    (let current_state = state (status task);
                         tr = tr @
                           [GetTask params,
                            if Some current_state \<noteq> last_state v
                            then Print [T ''   '', U 0x2713, T '' State changed: '',
                                        St (last_state v), T '' '', U 0x2192, T '' '',
                                        St (Some current_state)]
                            else Print [T ''   State: '', St (Some current_state)]];
                         v = v\<lparr>last_state := Some current_state\<rparr>;
                         v = check_status_message (status task) v;
                         v = (case history task of
                                None \<Rightarrow> v
                              | Some items \<Rightarrow> check_history items v)
                     in case check_stop env self task v of
                          (self', tr', brk) \<Rightarrow> (self', v, tr @ tr', brk)))))"

text \<open>
  The \<open>while poll_count < max_polls\<close> loop. The result holds the final \<open>poll_count\<close>,
  which is the number of times the body has run.
\<close>

function poll_loop ::
  "env \<Rightarrow> int \<Rightarrow> real \<Rightarrow> client_state \<Rightarrow> int \<Rightarrow> poll_vars \<Rightarrow> event list \<Rightarrow>
     client_state \<times> int \<times> poll_vars \<times> event list" where
  "poll_loop env max_polls interval self poll_count v tr =
     (if poll_count < max_polls then
        (case poll_body env interval self (poll_count + 1) v of
           (self', v', tr', brk) \<Rightarrow>
             if brk then (self', poll_count + 1, v', tr @ tr')
             else poll_loop env max_polls interval self' (poll_count + 1) v' (tr @ tr'))
      else (self, poll_count, v, tr))"
  by pat_completeness auto
termination
  by (relation "measure (\<lambda>(env, max_polls, interval, self, poll_count, v, tr).
                   nat (max_polls - poll_count))") auto

declare poll_loop.simps [simp del]

definition init_vars :: poll_vars where
  "init_vars = \<lparr>last_state = None, messages_received = [], last_agent_message = None\<rparr>"

definition poll_for_updates ::
  "env \<Rightarrow> client_state \<Rightarrow> int \<Rightarrow> real \<Rightarrow> client_state \<times> event list" where
  "poll_for_updates env self max_polls interval =
     (case current_task self of
        None \<Rightarrow> (self, [])
      | Some cur \<Rightarrow>
          (case poll_loop env max_polls interval self 0 init_vars [] of
             (self', poll_count, v, tr) \<Rightarrow>
               (self',
                tr @ (if poll_count \<ge> max_polls
                      then [Print [NL, T ''   Reached max polls ('', I max_polls,
                                   T ''). Stopping.'']]
                      else []))))"

text \<open>The call \<open>self.poll_for_updates()\<close> of \<open>send_message\<close>, with the default arguments.\<close>

definition poll_for_updates_default :: "env \<Rightarrow> client_state \<Rightarrow> client_state \<times> event list" where
  "poll_for_updates_default env self = poll_for_updates env self 10 2.0"

section \<open>The chat client: end_conversation\<close>

text \<open>The \<open>except Exception\<close> handler of \<open>end_conversation\<close>.\<close>

definition end_conversation_failed ::
  "client_state \<Rightarrow> event list \<Rightarrow> exn \<Rightarrow> client_state \<times> event list" where
  "end_conversation_failed self tr e =
     (self\<lparr>current_task := None\<rparr>,
      tr @ [Print [U 0x274C, T '' Error ending conversation: '', E e],
            Print [T ''   Clearing conversation locally'']])"

definition end_conversation :: "env \<Rightarrow> client_state \<Rightarrow> client_state \<times> event list" where
  "end_conversation env self =
     (case current_task self of
        None \<Rightarrow> (self, [Print [U 0x274C, T '' No active conversation to end'']])
      | Some cur \<Rightarrow>
          (let tr = [Print [U 0x1F4E4, T '' Ending conversation...'']] in
           case new_status_update env (task_id cur) completed of
             Inl e \<Rightarrow> end_conversation_failed self tr e
           | Inr status_upd \<Rightarrow>
               (case client self of
                  None \<Rightarrow>
                    end_conversation_failed self tr
                      (AttributeError
                         ''NoneType object has no attribute send_task_status_update'')
                | Some c \<Rightarrow>
                    (case send_task_status_update env status_upd of
                       Inl e \<Rightarrow>
                         end_conversation_failed self
                           (tr @ [SendTaskStatusUpdate status_upd]) e
                     | Inr done_ok \<Rightarrow>
                         (self\<lparr>current_task := None\<rparr>,
                          tr @ [SendTaskStatusUpdate status_upd,
                                Print [U 0x2705, T '' Conversation ended'']])))))"

section \<open>The validator\<close>

text \<open>
  How a call of the validator ends: it returns, or \<open>sys.exit(n)\<close> ends the process
  with status \<open>n\<close> (\<open>SystemExit\<close> is no subclass of \<open>Exception\<close>, so no handler
  of the script catches it).
\<close>

datatype outcome = Returned | SystemExit int

text \<open>\<open>response.raise_for_status()\<close> of requests: a status from 400 to 599 raises.\<close>

definition raise_for_status :: "response \<Rightarrow> exn + unit" where
  "raise_for_status response =
     (if 400 \<le> status_code response \<and> status_code response < 600
      then Inl (HTTPError (status_code response) (resp_text response))
      else Inr ())"

text \<open>\<open>sep.join(xs)\<close> on strings, and on texts that hold characters beyond ASCII.\<close>

fun join :: "'a list \<Rightarrow> 'a list list \<Rightarrow> 'a list" where
  "join sep [] = []"
| "join sep [x] = x"
| "join sep (x # y # ys) = x @ sep @ join sep (y # ys)"

definition ruler :: "nat \<Rightarrow> char \<Rightarrow> piece" where
  "ruler n c = T (replicate n c)"

text \<open>Lines 62 to 66. \<open>ext.description[:60]\<close> raises \<open>TypeError\<close> on \<open>None\<close>.\<close>

fun print_extensions :: "AgentExtension list \<Rightarrow> event list \<times> exn option" where
  "print_extensions [] = ([], None)"
| "print_extensions (ext # exts) =
     (let tr = [Print [T ''  - URI: '', T (ext_uri ext)]] in
      case ext_description ext of
        None \<Rightarrow> (tr, Some (TypeError ''NoneType object is not subscriptable''))
      | Some d \<Rightarrow>
          (case print_extensions exts of
             (tr', r) \<Rightarrow>
               (tr @ [Print [T ''    Description: '', T (take 60 d), T ''...''],
                      Print [T ''    Required: '', OptB (ext_required ext)]] @ tr',
                r)))"

fun print_skills :: "AgentSkill list \<Rightarrow> event list" where
  "print_skills [] = []"
| "print_skills (skill # rest) =
     [Print [T ''  - '', T (skill_name skill), T '' (id: '', T (skill_id skill), T '')''],
      Print [T ''    Description: '', T (take 60 (skill_description skill)), T ''...'']] @
     (if skill_tags skill \<noteq> []
      then [Print [T ''    Tags: '', T (join '', '' (skill_tags skill))]] else []) @
     print_skills rest"

fun print_interfaces :: "AgentInterface list \<Rightarrow> event list" where
  "print_interfaces [] = []"
| "print_interfaces (interface # rest) =
     [Print [T ''  - URL: '', T (interface_url interface)],
      Print [T ''    Transport: '', T (interface_transport interface)]] @
     print_interfaces rest"

text \<open>
  Lines 37 to 59: the card's own fields, the provider and the capabilities.
  \<open>capabilities\<close> is a required field of the card, so its test is true.
\<close>

definition print_card_head :: "AgentCard \<Rightarrow> event list" where
  "print_card_head agent_card =
     [Print [U 0x2705, T '' VALIDATION PASSED'', NL],
      Print [T ''Agent Card Details (validated by a2a-sdk):''],
      Print [ruler 40 CHR ''-''],
      Print [T ''  Name: '', T (card_name agent_card)],
      Print [T ''  Protocol Version: '', OptS (protocol_version agent_card)],
      Print [T ''  Description: '', T (take 80 (card_description agent_card)), T ''...''],
      Print [T ''  URL: '', T (card_url agent_card)],
      Print [T ''  Version: '', T (card_version agent_card)],
      Print [T ''  Preferred Transport: '', OptS (preferred_transport agent_card)]] @
     (case provider agent_card of
        None \<Rightarrow> []
      | Some p \<Rightarrow>
          [Print [NL, T ''Provider:''],
           Print [T ''  Organization: '', T (organization p)]] @
          (if provider_url p \<noteq> [] then [Print [T ''  URL: '', T (provider_url p)]]
           else [])) @
     [Print [NL, T ''Capabilities:''],
      Print [T ''  Streaming: '', OptB (streaming (capabilities agent_card))],
      Print [T ''  Push Notifications: '',
             OptB (push_notifications (capabilities agent_card))],
      Print [T ''  State Transition History: '',
             OptB (state_transition_history (capabilities agent_card))]]"

text \<open>Lines 61 to 66: the extensions, when the list is there and not empty.\<close>

definition print_extensions_section :: "AgentCard \<Rightarrow> event list \<times> exn option" where
  "print_extensions_section agent_card =
     (case extensions (capabilities agent_card) of
        None \<Rightarrow> ([], None)
      | Some exts \<Rightarrow>
          if exts = [] then ([], None)
          else (case print_extensions exts of
                  (tr, r) \<Rightarrow>
                    (Print [NL, T ''Extensions ('', I (int (length exts)), T ''):''] # tr, r)))"

text \<open>Lines 68 to 93: skills, interfaces, modes and the full validated model.\<close>

definition print_card_rest :: "AgentCard \<Rightarrow> event list" where
  "print_card_rest agent_card =
     (if skills agent_card \<noteq> []
      then Print [NL, T ''Skills ('', I (int (length (skills agent_card))), T ''):'']
             # print_skills (skills agent_card)
      else []) @
     (case additional_interfaces agent_card of
        None \<Rightarrow> []
      | Some ifs \<Rightarrow>
          if ifs = [] then []
          else Print [NL, T ''Additional Interfaces ('', I (int (length ifs)), T ''):'']
                 # print_interfaces ifs) @
     (if default_input_modes agent_card \<noteq> []
      then [Print [NL, T ''Default Input Modes: '',
                   T (join '', '' (default_input_modes agent_card))]]
      else []) @
     (if default_output_modes agent_card \<noteq> []
      then [Print [T ''Default Output Modes: '',
                   T (join '', '' (default_output_modes agent_card))]]
      else []) @
     [Print [NL, ruler 60 CHR ''=''],
      Print [T ''Full Validated Model (as JSON):''],
      Print [ruler 60 CHR ''=''],
      PrintModel agent_card]"

text \<open>
  Lines 37 to 93: the output for a validated card, and the exception that ends it
  early, if any.
\<close>

definition print_validated :: "AgentCard \<Rightarrow> event list \<times> exn option" where
  "print_validated agent_card =
     (case print_extensions_section agent_card of
        (tr_ext, Some e) \<Rightarrow> (print_card_head agent_card @ tr_ext, Some e)
      | (tr_ext, None) \<Rightarrow>
          (print_card_head agent_card @ tr_ext @ print_card_rest agent_card, None))"

text \<open>Lines 99 to 106: one block of output for each reported error, numbered from 1.\<close>

fun print_errors :: "int \<Rightarrow> error_details list \<Rightarrow> event list" where
  "print_errors idx [] = []"
| "print_errors idx (error # errors) =
     (let field_path = join [T '' '', U 0x2192, T '' ''] (map (\<lambda>loc. [Loc loc]) (err_loc error))
      in [Print ([NL, I idx, T ''. Field: ''] @ field_path),
          Print [T ''   Error: '', T (err_msg error)]] @
         (case err_input error of
            Some v \<Rightarrow> [Print [T ''   Input value: '', J v]]
          | None \<Rightarrow> []) @
         (case err_ctx error of
            Some v \<Rightarrow> [Print [T ''   Context: '', J v]]
          | None \<Rightarrow> [])) @
     print_errors (idx + 1) errors"

text \<open>The handler of \<open>ValidationError\<close> (lines 96 to 111), before its \<open>sys.exit(1)\<close>.\<close>

definition validation_failed :: "error_details list \<Rightarrow> json \<Rightarrow> event list" where
  "validation_failed errors agent_card_data =
     [Print [U 0x274C, T '' VALIDATION FAILED'', NL],
      Print [T ''Validation errors from a2a-sdk:''],
      Print [ruler 40 CHR ''-'']] @
     print_errors 1 errors @
     [Print [NL, ruler 60 CHR ''=''],
      Print [T ''Raw JSON received:''],
      Print [ruler 60 CHR ''=''],
      PrintDump agent_card_data]"

text \<open>
  The body of the outer \<open>try\<close> (lines 24 to 112): its output, and either the exception
  that leaves it or how it ends.
\<close>

definition fetch_and_validate :: "env \<Rightarrow> string \<Rightarrow> event list \<times> (exn + outcome)" where
  "fetch_and_validate env url =
     (case requests_get env url of
        Inl e \<Rightarrow> ([RequestsGet url], Inl e)
      | Inr response \<Rightarrow>
          (case raise_for_status response of
             Inl e \<Rightarrow> ([RequestsGet url], Inl e)
           | Inr ok \<Rightarrow>
               (case resp_json response of
                  Inl e \<Rightarrow> ([RequestsGet url], Inl e)
                | Inr agent_card_data \<Rightarrow>
                    (let tr =
                          [RequestsGet url,
                           Print [U 0x2713, T '' Successfully fetched agent card''],
                           Print [T ''  Response status: '', I (status_code response)],
                           Print [T ''  Content size: '',
                                  I (int (length (resp_text response))), T '' bytes'', NL],
                           ModelValidate agent_card_data]
                     in case model_validate env agent_card_data of
                          Inl (ValidationError errors) \<Rightarrow>
                            (tr @ validation_failed errors agent_card_data,
                             Inr (SystemExit 1))
                        | Inl e \<Rightarrow> (tr, Inl e)
                        | Inr agent_card \<Rightarrow>
                            (case print_validated agent_card of
                               (tr', None) \<Rightarrow> (tr @ tr', Inr Returned)
                             | (tr', Some e) \<Rightarrow> (tr @ tr', Inl e))))))"

text \<open>The handlers of the outer \<open>try\<close> (lines 114 to 134), each before its \<open>sys.exit(1)\<close>.\<close>

fun handle_exception :: "string \<Rightarrow> exn \<Rightarrow> event list" where
  "handle_exception url (Timeout m) =
     [Print [U 0x274C, T '' ERROR: Request timed out after 10 seconds'']]"
| "handle_exception url (ConnectionError m) =
     [Print [U 0x274C, T '' ERROR: Failed to connect to '', T url],
      Print [T ''   Details: '', E (ConnectionError m)]]"
| "handle_exception url (HTTPError code body) =
     [Print [U 0x274C, T '' ERROR: HTTP error occurred''],
      Print [T ''   Status code: '', I code],
      Print [T ''   Response: '', T body]]"
| "handle_exception url (JSONDecodeError m) =
     [Print [U 0x274C, T '' ERROR: Invalid JSON response''],
      Print [T ''   Details: '', E (JSONDecodeError m)]]"
| "handle_exception url e =
     [Print [U 0x274C, T '' ERROR: Unexpected error occurred''],
      Print [T ''   Type: '', TypeName e],
      Print [T ''   Details: '', E e]]"

text \<open>Lines 18 to 21.\<close>

definition print_banner :: "string \<Rightarrow> event list" where
  "print_banner url =
     [Print [ruler 60 CHR ''=''],
      Print [T ''A2A SDK Agent Card Validator''],
      Print [ruler 60 CHR ''=''],
      Print [NL, T ''Fetching agent card from: '', T url, NL]]"

definition validate_agent_card_from_url :: "env \<Rightarrow> string \<Rightarrow> event list \<times> outcome" where
  "validate_agent_card_from_url env url =
     (case fetch_and_validate env url of
        (tr, Inr out) \<Rightarrow> (print_banner url @ tr, out)
      | (tr, Inl e) \<Rightarrow> (print_banner url @ tr @ handle_exception url e, SystemExit 1))"

text \<open>\<open>main\<close> of the validator; \<open>argv\<close> is \<open>sys.argv\<close>, the program name first.\<close>

definition main :: "env \<Rightarrow> string list \<Rightarrow> event list \<times> outcome" where
  "main env argv =
     (if length argv \<noteq> 2 then
        ([Print [T ''Usage: python validate_a2a_card.py <agent-card-url>''],
          Print [T ''Example: python validate_a2a_card.py http://localhost:3003/rooms/abc/agent-card.json'']],
         SystemExit 1)
      else
        (let url = argv ! 1 in
         if \<not> (prefix ''http://'' url \<or> prefix ''https://'' url) then
           ([Print [U 0x274C,
                    T '' ERROR: Invalid URL format. URL must start with http:// or https://''],
             Print [T ''   Provided: '', T url]],
            SystemExit 1)
         else validate_agent_card_from_url env url))"

section \<open>Example inputs\<close>

text \<open>
  An environment in which no server answers, an agent card, a task and a connected
  client: the concrete inputs of the examples below, which change one answer at a time.
\<close>

definition example_env :: env where
  "example_env =
     \<lparr>httpx_get = (\<lambda>i url. Inl (ConnectionError ''connection refused'')),
      requests_get = (\<lambda>url. Inl (ConnectionError ''connection refused'')),
      model_validate = (\<lambda>d. Inl (ValidationError [])),
      factory_create = (\<lambda>c. Inr (A2AClient c)),
      get_task = (\<lambda>n params. Inl (ConnectionError ''connection refused'')),
      get_message_text =
        (\<lambda>m. join [CHR 0x0A] (concat (map (\<lambda>p. case p of TextPart t \<Rightarrow> [t] | OtherPart \<Rightarrow> [])
                                          (parts m)))),
      new_status_update = (\<lambda>t s. Inr \<lparr>update_task_id = t, update_state = s\<rparr>),
      send_task_status_update = (\<lambda>u. Inr ())\<rparr>"

definition example_card :: AgentCard where
  "example_card =
     \<lparr>card_name = ''Room agent'',
      protocol_version = Some ''0.3.0'',
      card_description = ''An agent that answers in a room'',
      card_url = ''http://localhost:3003/api/rooms/r1/a2a'',
      card_version = ''1.0.0'',
      preferred_transport = Some ''JSONRPC'',
      provider = None,
      capabilities =
        \<lparr>streaming = Some True, push_notifications = None,
         state_transition_history = None, extensions = None\<rparr>,
      skills = [],
      additional_interfaces = None,
      default_input_modes = [''text/plain''],
      default_output_modes = [''text/plain'']\<rparr>"

definition example_task :: "TaskState \<Rightarrow> Task" where
  "example_task s =
     \<lparr>task_id = ''task-1'', status = \<lparr>state = s, message = None\<rparr>, history = None\<rparr>"

definition example_client :: client_state where
  "example_client =
     \<lparr>agent_url = ''http://localhost:3003/api/rooms/r1/a2a'',
      client = Some (A2AClient example_card),
      http_client = Some Open,
      current_task = Some (example_task working)\<rparr>"

text \<open>
  A card that declares one extension and gives no description for it, and the JSON
  document of that card.
\<close>

definition extension_card :: AgentCard where
  "extension_card =
     example_card
       \<lparr>capabilities :=
          \<lparr>streaming = Some True, push_notifications = None,
           state_transition_history = None,
           extensions =
             Some [\<lparr>ext_uri = ''https://example.org/ext/v1'', ext_description = None,
                    ext_required = None\<rparr>]\<rparr>\<rparr>"

definition extension_card_json :: json where
  "extension_card_json =
     JObj [(''name'', JStr ''Room agent''),
           (''description'', JStr ''An agent that answers in a room''),
           (''url'', JStr ''http://localhost:3003/api/rooms/r1/a2a''),
           (''version'', JStr ''1.0.0''),
           (''capabilities'',
              JObj [(''streaming'', JBool True),
                    (''extensions'', JArr [JObj [(''uri'', JStr ''https://example.org/ext/v1'')]])]),
           (''skills'', JArr []),
           (''defaultInputModes'', JArr [JStr ''text/plain'']),
           (''defaultOutputModes'', JArr [JStr ''text/plain''])]"

text \<open>
  A server that answers every GET of the validator with that document, and an SDK that
  validates it to that card.
\<close>

definition extension_env :: env where
  "extension_env =
     example_env
       \<lparr>requests_get :=
          (\<lambda>url. Inr \<lparr>status_code = 200, resp_text = ''{...}'',
                        resp_json = Inr extension_card_json\<rparr>),
        model_validate :=
          (\<lambda>d. if d = extension_card_json then Inr extension_card
                else Inl (ValidationError []))\<rparr>"

text \<open>
  A card document without a \<open>version\<close>, a server that answers every GET with it, and
  a server whose first answer is a 200 with a page that is no JSON and whose later
  answers are that document.
\<close>

definition unversioned_json :: json where
  "unversioned_json = JObj [(''name'', JStr ''Room agent'')]"

definition card_response :: response where
  "card_response =
     \<lparr>status_code = 200, resp_text = ''{name: Room agent}'', resp_json = Inr unversioned_json\<rparr>"

definition html_response :: response where
  "html_response =
     \<lparr>status_code = 200, resp_text = ''<html></html>'',
      resp_json = Inl (JSONDecodeError ''Expecting value'')\<rparr>"

definition card_env :: env where
  "card_env =
     example_env\<lparr>httpx_get := (\<lambda>i url. Inr card_response),
                  requests_get := (\<lambda>url. Inr card_response)\<rparr>"

definition html_first_env :: env where
  "html_first_env =
     example_env\<lparr>httpx_get := (\<lambda>i url. if i = 0 then Inr html_response else Inr card_response)\<rparr>"

text \<open>A server on which the task waits for the user's input at every fetch.\<close>

definition waiting_env :: env where
  "waiting_env = example_env\<lparr>get_task := (\<lambda>n params. Inr (example_task input_required))\<rparr>"

text \<open>
  A server on which the task is \<open>working\<close> at the first two fetches and \<open>completed\<close>
  from the third on, and a message by its identifier and role.
\<close>

definition completing_env :: env where
  "completing_env =
     example_env
       \<lparr>get_task := (\<lambda>n params. Inr (example_task (if n < 3 then working else completed)))\<rparr>"

definition example_message :: "string \<Rightarrow> Role \<Rightarrow> Message" where
  "example_message i r = \<lparr>message_id = i, role = r, parts = [TextPart ''hello'']\<rparr>"

section \<open>Reading a trace\<close>

text \<open>
  The calls of one kind in a trace, in the order they were made: the URLs of the GETs
  of httpx and of requests, the data given to \<open>AgentCard.model_validate\<close>, and the
  lengths of the sleeps.
\<close>

definition httpx_gets :: "event list \<Rightarrow> string list" where
  "httpx_gets tr = concat (map (\<lambda>ev. case ev of HttpxGet u \<Rightarrow> [u] | _ \<Rightarrow> []) tr)"

definition requests_gets :: "event list \<Rightarrow> string list" where
  "requests_gets tr = concat (map (\<lambda>ev. case ev of RequestsGet u \<Rightarrow> [u] | _ \<Rightarrow> []) tr)"

definition validated :: "event list \<Rightarrow> json list" where
  "validated tr = concat (map (\<lambda>ev. case ev of ModelValidate d \<Rightarrow> [d] | _ \<Rightarrow> []) tr)"

definition sleeps :: "event list \<Rightarrow> real list" where
  "sleeps tr = concat (map (\<lambda>ev. case ev of AsyncioSleep t \<Rightarrow> [t] | _ \<Rightarrow> []) tr)"

text \<open>The events that only write to the terminal.\<close>

fun is_print :: "event \<Rightarrow> bool" where
  "is_print (Print p) = True"
| "is_print (PrintDump d) = True"
| "is_print (PrintModel c) = True"
| "is_print _ = False"

text \<open>
  The task that poll number \<open>n\<close> of a client fetches, when the fetch succeeds: the
  client has a task and an SDK client, and \<open>get_task\<close> answers with a task.
\<close>

definition fetched :: "env \<Rightarrow> client_state \<Rightarrow> int \<Rightarrow> Task option" where
  "fetched env self n =
     (case current_task self of
        None \<Rightarrow> None
      | Some cur \<Rightarrow>
          (case client self of
             None \<Rightarrow> None
           | Some c \<Rightarrow>
               (case get_task env n \<lparr>query_id = task_id cur, history_length = 100\<rparr> of
                  Inl e \<Rightarrow> None
                | Inr task \<Rightarrow> Some task)))"

section \<open>Properties\<close>

subsection \<open>The candidate URLs\<close>

text \<open>
  The substring test is the library's contiguous \<open>sublist\<close>. A replacement leaves a
  string without an occurrence as it is, and replaces the leftmost occurrence first.
\<close>

lemma str_contains_sublist: "str_contains sub s = sublist sub s"
  by (induction s) (auto simp: sublist_Cons_right)

lemma str_replace_absent:
  "old \<noteq> [] \<Longrightarrow> \<not> str_contains old s \<Longrightarrow> str_replace s old new = s"
proof (induction s)
  case Nil
  then show ?case by (simp add: str_replace.simps)
next
  case (Cons c s)
  then have "\<not> prefix old (c # s)" "\<not> str_contains old s" by simp_all
  with Cons show ?case by (simp add: str_replace.simps [of "c # s"])
qed

lemma str_replace_first:
  "old \<noteq> [] \<Longrightarrow> \<not> str_contains old (a @ butlast old) \<Longrightarrow>
   str_replace (a @ old @ b) old new = a @ new @ str_replace b old new"
proof (induction a)
  case Nil
  then show ?case by (simp add: str_replace.simps [of "old @ b"])
next
  case (Cons c a)
  have np: "\<not> prefix old ((c # a) @ old @ b)"
  proof
    assume p: "prefix old ((c # a) @ old @ b)"
    have e: "(c # a) @ old @ b = ((c # a) @ butlast old) @ (last old # b)"
      using Cons.prems(1) by simp
    have l: "length old \<le> length ((c # a) @ butlast old)" by simp
    have q: "prefix ((c # a) @ butlast old) ((c # a) @ old @ b)"
      unfolding e by (rule prefixI) simp
    from prefix_length_prefix [OF p q l] have "prefix old ((c # a) @ butlast old)" .
    with Cons.prems(2) show False by simp
  qed
  from Cons.prems have "\<not> str_contains old (a @ butlast old)" by simp
  with Cons.IH Cons.prems(1) have "str_replace (a @ old @ b) old new = a @ new @ str_replace b old new"
    by simp
  with np Cons.prems(1) show ?case by (simp add: str_replace.simps [of "c # a @ old @ b"])
qed

text \<open>
  C4. For every \<open>agent_url\<close> the list of candidate URLs is not empty and ends with
  \<open>agent_url + '/.well-known/agent-card.json'\<close>; when \<open>'/a2a'\<close> occurs in the URL the
  first candidate is the URL with \<open>'/a2a'\<close> replaced by the well-known path; when
  \<open>'localhost:3003'\<close> occurs in it, the URL with \<open>'/api/rooms/'\<close> replaced by
  \<open>'/rooms/'\<close> and then \<open>'/a2a'\<close> by \<open>'/agent-card.json'\<close> is among the candidates.
\<close>

theorem get_agent_card_urls_shape:
  "get_agent_card_urls u \<noteq> [] \<and>
   last (get_agent_card_urls u) = u @ ''/.well-known/agent-card.json'' \<and>
   (str_contains ''/a2a'' u \<longrightarrow>
      hd (get_agent_card_urls u) =
        str_replace u ''/a2a'' ''/.well-known/agent-card.json'') \<and>
   (str_contains ''localhost:3003'' u \<longrightarrow>
      str_replace (str_replace u ''/api/rooms/'' ''/rooms/'') ''/a2a'' ''/agent-card.json''
        \<in> set (get_agent_card_urls u))"
  by (simp add: get_agent_card_urls_def Let_def)

theorem get_agent_card_urls_shape_witness:
  "str_contains ''/a2a'' ''http://localhost:3003/api/rooms/r1/a2a'' \<and>
   str_contains ''localhost:3003'' ''http://localhost:3003/api/rooms/r1/a2a'' \<and>
   get_agent_card_urls ''http://localhost:3003/api/rooms/r1/a2a'' =
     [''http://localhost:3003/api/rooms/r1/.well-known/agent-card.json'',
      ''http://localhost:3003/rooms/r1/agent-card.json'',
      ''http://localhost:3003/api/rooms/r1/a2a/.well-known/agent-card.json'']"
  using get_agent_card_urls_shape [of "''http://localhost:3003/api/rooms/r1/a2a''"]
  by (simp add: get_agent_card_urls_def str_replace.simps)

subsection \<open>end_conversation\<close>

text \<open>
  C9. When \<open>end_conversation\<close> is called with an active conversation, \<open>current_task\<close>
  is \<open>None\<close> when it returns, whatever the SDK answers: the status update may be sent,
  or building or sending it may raise. With no active conversation the client is
  returned as it was.
\<close>

theorem end_conversation_clears_task:
  "(current_task self \<noteq> None \<longrightarrow> current_task (fst (end_conversation env self)) = None) \<and>
   (current_task self = None \<longrightarrow> fst (end_conversation env self) = self)"
  by (simp add: end_conversation_def end_conversation_failed_def Let_def
           split: option.split sum.split)

theorem end_conversation_clears_task_witness:
  "current_task example_client \<noteq> None \<and>
   current_task (fst (end_conversation example_env example_client)) = None \<and>
   current_task
     (fst (end_conversation
             (example_env\<lparr>send_task_status_update := \<lambda>u. Inl (AttributeError ''no such method'')\<rparr>)
             example_client)) = None \<and>
   current_task (example_client\<lparr>current_task := None\<rparr>) = None \<and>
   fst (end_conversation example_env (example_client\<lparr>current_task := None\<rparr>)) =
     example_client\<lparr>current_task := None\<rparr>"
proof -
  have a: "current_task example_client \<noteq> None"
    by (simp add: example_client_def)
  have b: "current_task (fst (end_conversation env example_client)) = None" for env
    using end_conversation_clears_task [of example_client env, THEN conjunct1] a by simp
  have c: "fst (end_conversation example_env (example_client\<lparr>current_task := None\<rparr>)) =
             example_client\<lparr>current_task := None\<rparr>"
    using end_conversation_clears_task
            [of "example_client\<lparr>current_task := None\<rparr>" example_env, THEN conjunct2]
    by simp
  from a b c show ?thesis by simp
qed

subsection \<open>What the printing functions put into a trace\<close>

lemma readers_Nil [simp]:
  "requests_gets [] = []" "httpx_gets [] = []" "validated [] = []" "sleeps [] = []"
  by (simp_all add: requests_gets_def httpx_gets_def validated_def sleeps_def)

lemma readers_append [simp]:
  "requests_gets (a @ b) = requests_gets a @ requests_gets b"
  "httpx_gets (a @ b) = httpx_gets a @ httpx_gets b"
  "validated (a @ b) = validated a @ validated b"
  "sleeps (a @ b) = sleeps a @ sleeps b"
  by (simp_all add: requests_gets_def httpx_gets_def validated_def sleeps_def)

lemma readers_Cons [simp]:
  "requests_gets (ev # tr) = (case ev of RequestsGet u \<Rightarrow> [u] | _ \<Rightarrow> []) @ requests_gets tr"
  "httpx_gets (ev # tr) = (case ev of HttpxGet u \<Rightarrow> [u] | _ \<Rightarrow> []) @ httpx_gets tr"
  "validated (ev # tr) = (case ev of ModelValidate d \<Rightarrow> [d] | _ \<Rightarrow> []) @ validated tr"
  "sleeps (ev # tr) = (case ev of AsyncioSleep t \<Rightarrow> [t] | _ \<Rightarrow> []) @ sleeps tr"
  by (simp_all add: requests_gets_def httpx_gets_def validated_def sleeps_def)

lemma prints_no_calls:
  "list_all is_print tr \<Longrightarrow>
   requests_gets tr = [] \<and> httpx_gets tr = [] \<and> validated tr = [] \<and> sleeps tr = []"
proof (induction tr)
  case Nil
  then show ?case by simp
next
  case (Cons ev tr)
  then show ?case by (cases ev) simp_all
qed

lemma prints_readers [simp]:
  "list_all is_print tr \<Longrightarrow> requests_gets tr = []"
  "list_all is_print tr \<Longrightarrow> httpx_gets tr = []"
  "list_all is_print tr \<Longrightarrow> validated tr = []"
  "list_all is_print tr \<Longrightarrow> sleeps tr = []"
  using prints_no_calls [of tr] by simp_all

lemma is_print_print_errors [simp]: "list_all is_print (print_errors i es)"
  by (induction es arbitrary: i) (simp_all add: Let_def split: option.split)

lemma is_print_print_extensions [simp]: "list_all is_print (fst (print_extensions xs))"
  by (induction xs) (auto simp: Let_def split: option.split prod.split)

lemma is_print_print_skills [simp]: "list_all is_print (print_skills xs)"
  by (induction xs) simp_all

lemma is_print_print_interfaces [simp]: "list_all is_print (print_interfaces xs)"
  by (induction xs) simp_all

lemma is_print_print_card_head [simp]: "list_all is_print (print_card_head c)"
  by (simp add: print_card_head_def split: option.split)

lemma is_print_print_card_rest [simp]: "list_all is_print (print_card_rest c)"
  by (simp add: print_card_rest_def split: option.split)

lemma is_print_print_extensions_section [simp]:
  "list_all is_print (fst (print_extensions_section c))"
proof (cases "extensions (capabilities c)")
  case None
  then show ?thesis by (simp add: print_extensions_section_def)
next
  case (Some exts)
  obtain tr r where pe: "print_extensions exts = (tr, r)" by (cases "print_extensions exts")
  have "list_all is_print tr" using is_print_print_extensions [of exts] pe by simp
  with Some pe show ?thesis by (simp add: print_extensions_section_def)
qed

lemma is_print_print_validated [simp]: "list_all is_print (fst (print_validated c))"
proof -
  obtain tr r where pe: "print_extensions_section c = (tr, r)"
    by (cases "print_extensions_section c")
  have "list_all is_print tr" using is_print_print_extensions_section [of c] pe by simp
  with pe show ?thesis by (cases r) (simp_all add: print_validated_def)
qed

lemma is_print_print_banner [simp]: "list_all is_print (print_banner url)"
  by (simp add: print_banner_def)

lemma is_print_handle_exception [simp]: "list_all is_print (handle_exception url e)"
  by (cases e) simp_all

lemma is_print_validation_failed [simp]: "list_all is_print (validation_failed es d)"
  by (simp add: validation_failed_def)

subsection \<open>The calls of the validator\<close>

text \<open>
  Whatever the server and the SDK answer, the body of the \<open>try\<close> makes one GET, and
  its other events are output and at most one call of \<open>model_validate\<close>.
\<close>

lemma fetch_and_validate_shape:
  "\<exists>tr. fst (fetch_and_validate env url) = RequestsGet url # tr \<and>
        requests_gets tr = [] \<and>
        (validated tr = [] \<or>
         (\<exists>response d. requests_get env url = Inr response \<and> resp_json response = Inr d \<and>
                        validated tr = [d]))"
proof (cases "requests_get env url")
  case (Inl e)
  then show ?thesis
    by (simp add: fetch_and_validate_def)
next
  case get: (Inr response)
  show ?thesis
  proof (cases "raise_for_status response")
    case (Inl e)
    with get show ?thesis
      by (simp add: fetch_and_validate_def)
  next
    case ok: (Inr u)
    show ?thesis
    proof (cases "resp_json response")
      case (Inl e)
      with get ok show ?thesis
        by (simp add: fetch_and_validate_def)
    next
      case body: (Inr d)
      have pr: "requests_gets (p1 # p2 # p3 # ModelValidate d # tr) = [] \<and>
                validated (p1 # p2 # p3 # ModelValidate d # tr) = [d]"
        if "list_all is_print [p1, p2, p3]" "list_all is_print tr" for p1 p2 p3 tr
        using prints_no_calls [OF that(1)] prints_no_calls [OF that(2)]
        by simp
      show ?thesis
      proof (cases "model_validate env d")
        case (Inl e)
        with get ok body show ?thesis
          by (cases e) (simp_all add: fetch_and_validate_def pr)
      next
        case (Inr card)
        obtain tr r where pv: "print_validated card = (tr, r)"
          by (cases "print_validated card")
        have "list_all is_print tr"
          using is_print_print_validated [of card] pv by simp
        with get ok body Inr pv show ?thesis
          by (cases r) (simp_all add: fetch_and_validate_def pr)
      qed
    qed
  qed
qed

lemma requests_gets_validate:
  "requests_gets (fst (validate_agent_card_from_url env url)) = [url]"
proof -
  obtain tr r where fv: "fetch_and_validate env url = (tr, r)"
    by (cases "fetch_and_validate env url")
  from fetch_and_validate_shape [of env url] fv
  obtain tr' where tr: "tr = RequestsGet url # tr'" "requests_gets tr' = []" by auto
  have a: "requests_gets (xs @ RequestsGet url # tr' @ ys) = [url]"
    if "list_all is_print xs" "list_all is_print ys" for xs ys
    using prints_no_calls [OF that(1)] prints_no_calls [OF that(2)] tr(2)
    by simp
  from a [of "print_banner url" "[]"] a [of "print_banner url" "handle_exception url e" for e]
    fv tr(1)
  show ?thesis by (cases r) (simp_all add: validate_agent_card_from_url_def)
qed

subsection \<open>The validator's command line\<close>

text \<open>
  C10. \<open>main\<close> exits with status 1 without any GET when the command line does not
  hold exactly one argument after the program name, and when that argument starts
  with neither \<open>http://\<close> nor \<open>https://\<close>; a URL that is fetched is that argument
  and passes both checks.
\<close>

theorem main_checks_before_fetch:
  "(length argv \<noteq> 2 \<longrightarrow>
      snd (main env argv) = SystemExit 1 \<and> requests_gets (fst (main env argv)) = []) \<and>
   (length argv = 2 \<longrightarrow> \<not> prefix ''http://'' (argv ! 1) \<longrightarrow> \<not> prefix ''https://'' (argv ! 1) \<longrightarrow>
      snd (main env argv) = SystemExit 1 \<and> requests_gets (fst (main env argv)) = []) \<and>
   (\<forall>u. u \<in> set (requests_gets (fst (main env argv))) \<longrightarrow>
      length argv = 2 \<and> u = argv ! 1 \<and> (prefix ''http://'' u \<or> prefix ''https://'' u))"
proof (cases "length argv \<noteq> 2")
  case True
  then have "main env argv =
      ([Print [T ''Usage: python validate_a2a_card.py <agent-card-url>''],
        Print [T ''Example: python validate_a2a_card.py http://localhost:3003/rooms/abc/agent-card.json'']],
       SystemExit 1)"
    unfolding main_def by (rule if_P)
  with True show ?thesis by simp
next
  case len: False
  define url where "url = argv ! 1"
  show ?thesis
  proof (cases "prefix ''http://'' url \<or> prefix ''https://'' url")
    case True
    with len have "main env argv = validate_agent_card_from_url env url"
      unfolding main_def Let_def url_def by simp
    with len True show ?thesis
      unfolding url_def [symmetric] by (auto simp: requests_gets_validate)
  next
    case False
    with len have "main env argv =
      ([Print [U 0x274C,
               T '' ERROR: Invalid URL format. URL must start with http:// or https://''],
        Print [T ''   Provided: '', T url]],
       SystemExit 1)"
      unfolding main_def Let_def url_def by simp
    with len False show ?thesis
      unfolding url_def [symmetric] by simp
  qed
qed

theorem main_checks_before_fetch_witness:
  "length [''validate_a2a_card.py''] \<noteq> 2 \<and>
   snd (main example_env [''validate_a2a_card.py'']) = SystemExit 1 \<and>
   requests_gets (fst (main example_env [''validate_a2a_card.py''])) = [] \<and>
   length [''validate_a2a_card.py'', ''ftp://host/card.json''] = 2 \<and>
   \<not> prefix ''http://'' ([''validate_a2a_card.py'', ''ftp://host/card.json''] ! 1) \<and>
   \<not> prefix ''https://'' ([''validate_a2a_card.py'', ''ftp://host/card.json''] ! 1) \<and>
   snd (main example_env [''validate_a2a_card.py'', ''ftp://host/card.json'']) = SystemExit 1 \<and>
   requests_gets (fst (main example_env [''validate_a2a_card.py'', ''ftp://host/card.json''])) = [] \<and>
   ''http://host/card.json''
     \<in> set (requests_gets
              (fst (main example_env [''validate_a2a_card.py'', ''http://host/card.json'']))) \<and>
   prefix ''http://'' ''http://host/card.json''"
proof -
  have a: "snd (main example_env [''validate_a2a_card.py'']) = SystemExit 1 \<and>
           requests_gets (fst (main example_env [''validate_a2a_card.py''])) = []"
    using main_checks_before_fetch [of "[''validate_a2a_card.py'']" example_env, THEN conjunct1]
    by simp
  have b: "snd (main example_env [''validate_a2a_card.py'', ''ftp://host/card.json'']) = SystemExit 1 \<and>
           requests_gets (fst (main example_env [''validate_a2a_card.py'', ''ftp://host/card.json''])) = []"
    using main_checks_before_fetch [of "[''validate_a2a_card.py'', ''ftp://host/card.json'']" example_env,
            THEN conjunct2, THEN conjunct1]
    by simp
  have c: "''http://host/card.json''
     \<in> set (requests_gets
              (fst (main example_env [''validate_a2a_card.py'', ''http://host/card.json''])))"
    by (simp add: main_def requests_gets_validate)
  have d: "prefix ''http://'' ''http://host/card.json''"
    using main_checks_before_fetch [of "[''validate_a2a_card.py'', ''http://host/card.json'']" example_env,
            THEN conjunct2, THEN conjunct2, THEN spec, of "''http://host/card.json''"] c
    by simp
  from a b c d show ?thesis by simp
qed

subsection \<open>The validator's failures\<close>

lemma validate_raised:
  "fetch_and_validate env url = (tr, Inl e) \<Longrightarrow>
   validate_agent_card_from_url env url =
     (print_banner url @ tr @ handle_exception url e, SystemExit 1)"
  by (simp add: validate_agent_card_from_url_def)

lemma validate_ended:
  "fetch_and_validate env url = (tr, Inr out) \<Longrightarrow>
   validate_agent_card_from_url env url = (print_banner url @ tr, out)"
  by (simp add: validate_agent_card_from_url_def)

lemma fetch_get_raised:
  "requests_get env url = Inl e \<Longrightarrow> fetch_and_validate env url = ([RequestsGet url], Inl e)"
  by (simp add: fetch_and_validate_def)

lemma fetch_http_error:
  "requests_get env url = Inr response \<Longrightarrow>
   400 \<le> status_code response \<Longrightarrow> status_code response < 600 \<Longrightarrow>
   fetch_and_validate env url =
     ([RequestsGet url], Inl (HTTPError (status_code response) (resp_text response)))"
  by (simp add: fetch_and_validate_def raise_for_status_def)

lemma raise_for_status_ok:
  "\<not> (400 \<le> status_code response \<and> status_code response < 600) \<Longrightarrow>
   raise_for_status response = Inr ()"
  by (auto simp: raise_for_status_def)

lemma fetch_json_raised:
  "requests_get env url = Inr response \<Longrightarrow>
   raise_for_status response = Inr () \<Longrightarrow>
   resp_json response = Inl e \<Longrightarrow>
   fetch_and_validate env url = ([RequestsGet url], Inl e)"
  by (simp add: fetch_and_validate_def)

lemma fetched_trace:
  "requests_get env url = Inr response \<Longrightarrow>
   raise_for_status response = Inr () \<Longrightarrow>
   resp_json response = Inr d \<Longrightarrow>
   fetch_and_validate env url =
     (case model_validate env d of
        Inl (ValidationError errors) \<Rightarrow>
          ([RequestsGet url,
            Print [U 0x2713, T '' Successfully fetched agent card''],
            Print [T ''  Response status: '', I (status_code response)],
            Print [T ''  Content size: '', I (int (length (resp_text response))), T '' bytes'', NL],
            ModelValidate d] @ validation_failed errors d, Inr (SystemExit 1))
      | Inl e \<Rightarrow>
          ([RequestsGet url,
            Print [U 0x2713, T '' Successfully fetched agent card''],
            Print [T ''  Response status: '', I (status_code response)],
            Print [T ''  Content size: '', I (int (length (resp_text response))), T '' bytes'', NL],
            ModelValidate d], Inl e)
      | Inr agent_card \<Rightarrow>
          (case print_validated agent_card of
             (tr', None) \<Rightarrow>
               ([RequestsGet url,
                 Print [U 0x2713, T '' Successfully fetched agent card''],
                 Print [T ''  Response status: '', I (status_code response)],
                 Print [T ''  Content size: '', I (int (length (resp_text response))), T '' bytes'', NL],
                 ModelValidate d] @ tr', Inr Returned)
           | (tr', Some e) \<Rightarrow>
               ([RequestsGet url,
                 Print [U 0x2713, T '' Successfully fetched agent card''],
                 Print [T ''  Response status: '', I (status_code response)],
                 Print [T ''  Content size: '', I (int (length (resp_text response))), T '' bytes'', NL],
                 ModelValidate d] @ tr', Inl e)))"
  by (simp add: fetch_and_validate_def Let_def)

text \<open>
  C7. A call of the validator makes exactly one GET, to the URL it was given, and each
  failure of that request ends in a printed error and \<open>sys.exit(1)\<close>: a timeout, a
  connection error, an answer with an HTTP error status (400 to 599), and a body that
  is not valid JSON.
\<close>

theorem validate_single_get_and_transport_failures:
  "requests_gets (fst (validate_agent_card_from_url env url)) = [url] \<and>
   (\<forall>m. requests_get env url = Inl (Timeout m) \<longrightarrow>
      validate_agent_card_from_url env url =
        (print_banner url @
         [RequestsGet url,
          Print [U 0x274C, T '' ERROR: Request timed out after 10 seconds'']],
         SystemExit 1)) \<and>
   (\<forall>m. requests_get env url = Inl (ConnectionError m) \<longrightarrow>
      validate_agent_card_from_url env url =
        (print_banner url @
         [RequestsGet url,
          Print [U 0x274C, T '' ERROR: Failed to connect to '', T url],
          Print [T ''   Details: '', E (ConnectionError m)]],
         SystemExit 1)) \<and>
   (\<forall>response. requests_get env url = Inr response \<longrightarrow>
      400 \<le> status_code response \<longrightarrow> status_code response < 600 \<longrightarrow>
      validate_agent_card_from_url env url =
        (print_banner url @
         [RequestsGet url,
          Print [U 0x274C, T '' ERROR: HTTP error occurred''],
          Print [T ''   Status code: '', I (status_code response)],
          Print [T ''   Response: '', T (resp_text response)]],
         SystemExit 1)) \<and>
   (\<forall>response m. requests_get env url = Inr response \<longrightarrow>
      \<not> (400 \<le> status_code response \<and> status_code response < 600) \<longrightarrow>
      resp_json response = Inl (JSONDecodeError m) \<longrightarrow>
      validate_agent_card_from_url env url =
        (print_banner url @
         [RequestsGet url,
          Print [U 0x274C, T '' ERROR: Invalid JSON response''],
          Print [T ''   Details: '', E (JSONDecodeError m)]],
         SystemExit 1))"
proof (intro conjI allI impI)
  show "requests_gets (fst (validate_agent_card_from_url env url)) = [url]"
    by (rule requests_gets_validate)
next
  fix m assume "requests_get env url = Inl (Timeout m)"
  from validate_raised [OF fetch_get_raised [OF this]]
  show "validate_agent_card_from_url env url =
        (print_banner url @
         [RequestsGet url,
          Print [U 0x274C, T '' ERROR: Request timed out after 10 seconds'']],
         SystemExit 1)" by simp
next
  fix m assume "requests_get env url = Inl (ConnectionError m)"
  from validate_raised [OF fetch_get_raised [OF this]]
  show "validate_agent_card_from_url env url =
        (print_banner url @
         [RequestsGet url,
          Print [U 0x274C, T '' ERROR: Failed to connect to '', T url],
          Print [T ''   Details: '', E (ConnectionError m)]],
         SystemExit 1)" by simp
next
  fix response
  assume "requests_get env url = Inr response" "400 \<le> status_code response"
    "status_code response < 600"
  from validate_raised [OF fetch_http_error [OF this]]
  show "validate_agent_card_from_url env url =
        (print_banner url @
         [RequestsGet url,
          Print [U 0x274C, T '' ERROR: HTTP error occurred''],
          Print [T ''   Status code: '', I (status_code response)],
          Print [T ''   Response: '', T (resp_text response)]],
         SystemExit 1)" by simp
next
  fix response m
  assume a: "requests_get env url = Inr response"
    "\<not> (400 \<le> status_code response \<and> status_code response < 600)"
    "resp_json response = Inl (JSONDecodeError m)"
  from validate_raised [OF fetch_json_raised [OF a(1) raise_for_status_ok [OF a(2)] a(3)]]
  show "validate_agent_card_from_url env url =
        (print_banner url @
         [RequestsGet url,
          Print [U 0x274C, T '' ERROR: Invalid JSON response''],
          Print [T ''   Details: '', E (JSONDecodeError m)]],
         SystemExit 1)" by simp
qed

theorem validate_single_get_and_transport_failures_witness:
  "requests_get (example_env\<lparr>requests_get := \<lambda>u. Inl (Timeout ''read timed out'')\<rparr>)
      ''http://host/card.json'' = Inl (Timeout ''read timed out'') \<and>
   snd (validate_agent_card_from_url
          (example_env\<lparr>requests_get := \<lambda>u. Inl (Timeout ''read timed out'')\<rparr>)
          ''http://host/card.json'') = SystemExit 1 \<and>
   requests_gets (fst (validate_agent_card_from_url
          (example_env\<lparr>requests_get := \<lambda>u. Inl (Timeout ''read timed out'')\<rparr>)
          ''http://host/card.json'')) = [''http://host/card.json''] \<and>
   snd (validate_agent_card_from_url example_env ''http://host/card.json'') = SystemExit 1 \<and>
   snd (validate_agent_card_from_url
          (example_env\<lparr>requests_get :=
             \<lambda>u. Inr \<lparr>status_code = 404, resp_text = ''Not Found'',
                       resp_json = Inl (JSONDecodeError ''Expecting value'')\<rparr>\<rparr>)
          ''http://host/card.json'') = SystemExit 1 \<and>
   snd (validate_agent_card_from_url
          (example_env\<lparr>requests_get :=
             \<lambda>u. Inr \<lparr>status_code = 200, resp_text = ''<html>'',
                       resp_json = Inl (JSONDecodeError ''Expecting value'')\<rparr>\<rparr>)
          ''http://host/card.json'') = SystemExit 1"
proof -
  let ?u = "''http://host/card.json''"
  let ?e1 = "example_env\<lparr>requests_get := \<lambda>u. Inl (Timeout ''read timed out'')\<rparr>"
  let ?r3 = "\<lparr>status_code = 404, resp_text = ''Not Found'',
              resp_json = Inl (JSONDecodeError ''Expecting value'')\<rparr>"
  let ?e3 = "example_env\<lparr>requests_get := \<lambda>u. Inr ?r3\<rparr>"
  let ?r4 = "\<lparr>status_code = 200, resp_text = ''<html>'',
              resp_json = Inl (JSONDecodeError ''Expecting value'')\<rparr>"
  let ?e4 = "example_env\<lparr>requests_get := \<lambda>u. Inr ?r4\<rparr>"
  have g1: "requests_get ?e1 ?u = Inl (Timeout ''read timed out'')" by simp
  have g2: "requests_get example_env ?u = Inl (ConnectionError ''connection refused'')"
    by (simp add: example_env_def)
  have g3: "requests_get ?e3 ?u = Inr ?r3" by simp
  have g4: "requests_get ?e4 ?u = Inr ?r4" by simp
  note t1 = validate_single_get_and_transport_failures [of ?e1 ?u]
  note t2 = validate_single_get_and_transport_failures [of example_env ?u]
  note t3 = validate_single_get_and_transport_failures [of ?e3 ?u]
  note t4 = validate_single_get_and_transport_failures [of ?e4 ?u]
  have a: "requests_gets (fst (validate_agent_card_from_url ?e1 ?u)) = [?u]"
    using t1 [THEN conjunct1] .
  have b: "snd (validate_agent_card_from_url ?e1 ?u) = SystemExit 1"
    using t1 [THEN conjunct2, THEN conjunct1, THEN spec, THEN mp, OF g1] by simp
  have c: "snd (validate_agent_card_from_url example_env ?u) = SystemExit 1"
    using t2 [THEN conjunct2, THEN conjunct2, THEN conjunct1, THEN spec, THEN mp, OF g2]
    by simp
  have d: "snd (validate_agent_card_from_url ?e3 ?u) = SystemExit 1"
    using t3 [THEN conjunct2, THEN conjunct2, THEN conjunct2, THEN conjunct1, THEN spec,
              THEN mp, OF g3]
    by simp
  have e: "snd (validate_agent_card_from_url ?e4 ?u) = SystemExit 1"
    using t4 [THEN conjunct2, THEN conjunct2, THEN conjunct2, THEN conjunct2, THEN spec,
              THEN spec, THEN mp, OF g4, of "''Expecting value''"]
    by simp
  from g1 a b c d e show ?thesis by simp
qed


subsection \<open>The validator's verdict\<close>

text \<open>
  When the SDK rejects the document, every reported error and the raw JSON are printed
  and the status is 1. When it accepts the document and every declared extension has a
  description, the card's fields and the full model are printed and the call returns.
\<close>

lemma print_extensions_described:
  "list_all (\<lambda>ext. ext_description ext \<noteq> None) exts \<Longrightarrow> snd (print_extensions exts) = None"
  by (induction exts) (auto simp: Let_def split: option.split prod.split)

lemma print_extensions_undescribed:
  "\<not> list_all (\<lambda>ext. ext_description ext \<noteq> None) exts \<Longrightarrow>
   snd (print_extensions exts) = Some (TypeError ''NoneType object is not subscriptable'')"
  by (induction exts) (auto simp: Let_def split: option.split prod.split)

lemma print_errors_each:
  "i < length errors \<Longrightarrow>
   Print [T ''   Error: '', T (err_msg (errors ! i))] \<in> set (print_errors k errors)"
proof (induction errors arbitrary: i k)
  case Nil
  then show ?case by simp
next
  case (Cons error errors)
  show ?case
  proof (cases i)
    case 0
    then show ?thesis by (simp add: Let_def)
  next
    case (Suc j)
    with Cons.prems have "j < length errors" by simp
    from Cons.IH [OF this, of "k + 1"] Suc show ?thesis by (simp add: Let_def)
  qed
qed

lemma validate_reports_validation_errors:
  assumes "requests_get env url = Inr response"
    and "raise_for_status response = Inr ()"
    and "resp_json response = Inr d"
    and "model_validate env d = Inl (ValidationError errors)"
  shows "validate_agent_card_from_url env url =
     (print_banner url @
      [RequestsGet url,
       Print [U 0x2713, T '' Successfully fetched agent card''],
       Print [T ''  Response status: '', I (status_code response)],
       Print [T ''  Content size: '', I (int (length (resp_text response))), T '' bytes'', NL],
       ModelValidate d] @
      validation_failed errors d,
      SystemExit 1)"
  using fetched_trace [OF assms(1,2,3)] assms(4)
  by (simp add: validate_agent_card_from_url_def)

lemma validate_prints_validated_card:
  assumes "requests_get env url = Inr response"
    and "raise_for_status response = Inr ()"
    and "resp_json response = Inr d"
    and "model_validate env d = Inr agent_card"
    and "print_extensions_section agent_card = (tr_ext, None)"
  shows "validate_agent_card_from_url env url =
     (print_banner url @
      [RequestsGet url,
       Print [U 0x2713, T '' Successfully fetched agent card''],
       Print [T ''  Response status: '', I (status_code response)],
       Print [T ''  Content size: '', I (int (length (resp_text response))), T '' bytes'', NL],
       ModelValidate d] @
      print_card_head agent_card @ tr_ext @ print_card_rest agent_card,
      Returned)"
  using fetched_trace [OF assms(1,2,3)] assms(4,5)
  by (simp add: validate_agent_card_from_url_def print_validated_def)

text \<open>
  C6, at a card that the SDK validates and that declares an extension without a
  description (the field is optional in the SDK's \<open>AgentExtension\<close>): after
  \<open>VALIDATION PASSED\<close> and the extension's URI, \<open>ext.description[:60]\<close> raises
  \<open>TypeError\<close>, the handler of \<open>Exception\<close> reports an unexpected error, the full
  model is never printed, and the status is 1.
\<close>

theorem validate_undescribed_extension_exits_1:
  "model_validate extension_env extension_card_json = Inr extension_card \<and>
   snd (validate_agent_card_from_url extension_env
          ''http://localhost:3003/rooms/r1/agent-card.json'') = SystemExit 1 \<and>
   Print [U 0x2705, T '' VALIDATION PASSED'', NL]
     \<in> set (fst (validate_agent_card_from_url extension_env
                    ''http://localhost:3003/rooms/r1/agent-card.json'')) \<and>
   PrintModel extension_card
     \<notin> set (fst (validate_agent_card_from_url extension_env
                    ''http://localhost:3003/rooms/r1/agent-card.json'')) \<and>
   last (fst (validate_agent_card_from_url extension_env
                ''http://localhost:3003/rooms/r1/agent-card.json'')) =
     Print [T ''   Details: '', E (TypeError ''NoneType object is not subscriptable'')]"
proof -
  let ?u = "''http://localhost:3003/rooms/r1/agent-card.json''"
  let ?r = "\<lparr>status_code = 200, resp_text = ''{...}'', resp_json = Inr extension_card_json\<rparr>"
  have g: "requests_get extension_env ?u = Inr ?r" by (simp add: extension_env_def)
  have ok: "raise_for_status ?r = Inr ()" by (simp add: raise_for_status_def)
  have j: "resp_json ?r = Inr extension_card_json" by simp
  have v: "model_validate extension_env extension_card_json = Inr extension_card"
    by (simp add: extension_env_def)
  have pv: "print_validated extension_card =
      (print_card_head extension_card @
       [Print [NL, T ''Extensions ('', I 1, T ''):''],
        Print [T ''  - URI: '', T ''https://example.org/ext/v1'']],
       Some (TypeError ''NoneType object is not subscriptable''))"
    by (simp add: print_validated_def print_extensions_section_def extension_card_def
          example_card_def)
  have head: "PrintModel extension_card \<notin> set (print_card_head extension_card)"
    by (simp add: print_card_head_def extension_card_def example_card_def)
  have head2: "Print [U 0x2705, T '' VALIDATION PASSED'', NL] \<in> set (print_card_head extension_card)"
    by (simp add: print_card_head_def)
  have "validate_agent_card_from_url extension_env ?u =
     (print_banner ?u @
      [RequestsGet ?u,
       Print [U 0x2713, T '' Successfully fetched agent card''],
       Print [T ''  Response status: '', I 200],
       Print [T ''  Content size: '', I 5, T '' bytes'', NL],
       ModelValidate extension_card_json] @
      print_card_head extension_card @
       [Print [NL, T ''Extensions ('', I 1, T ''):''],
        Print [T ''  - URI: '', T ''https://example.org/ext/v1'']] @
      handle_exception ?u (TypeError ''NoneType object is not subscriptable''),
      SystemExit 1)"
    using fetched_trace [OF g ok j] v pv
    by (simp add: validate_agent_card_from_url_def)
  with v head head2 show ?thesis by (simp add: print_banner_def)
qed

subsection \<open>connect: the loop over the candidate URLs\<close>

lemma fetch_agent_card_skip:
  "\<not> (\<exists>response d. httpx_get env i url = Inr response \<and> status_code response = 200 \<and>
                     resp_json response = Inr d) \<Longrightarrow>
   fetch_agent_card env i (url # card_urls) =
     (case fetch_agent_card env (Suc i) card_urls of
        (tr, d) \<Rightarrow> ([Print [T ''   Trying: '', T url], HttpxGet url] @ tr, d))"
  by (auto simp: Let_def split: sum.split prod.split)

lemma fetch_agent_card_found:
  "httpx_get env i url = Inr response \<Longrightarrow> status_code response = 200 \<Longrightarrow>
   resp_json response = Inr d \<Longrightarrow>
   fetch_agent_card env i (url # card_urls) =
     ([Print [T ''   Trying: '', T url], HttpxGet url,
       Print [T ''   '', U 0x2705, T '' Found agent card at: '', T url]], d)"
  by (simp add: Let_def)

lemma fetch_agent_card_gets_prefix:
  "prefix (httpx_gets (fst (fetch_agent_card env i card_urls))) card_urls"
proof (induction card_urls arbitrary: i)
  case Nil
  then show ?case by simp
next
  case (Cons url card_urls)
  show ?case
  proof (cases "\<exists>response d. httpx_get env i url = Inr response \<and> status_code response = 200 \<and>
                     resp_json response = Inr d")
    case True
    then obtain response d where "httpx_get env i url = Inr response"
      "status_code response = 200" "resp_json response = Inr d" by blast
    from fetch_agent_card_found [OF this] show ?thesis by simp
  next
    case False
    obtain tr d where r: "fetch_agent_card env (Suc i) card_urls = (tr, d)"
      by (cases "fetch_agent_card env (Suc i) card_urls")
    with Cons.IH [of "Suc i"] have "prefix (httpx_gets tr) card_urls" by simp
    with fetch_agent_card_skip [OF False] r show ?thesis by simp
  qed
qed

lemma fetch_agent_card_first:
  "k < length card_urls \<Longrightarrow>
   httpx_get env (i + k) (card_urls ! k) = Inr response \<Longrightarrow>
   status_code response = 200 \<Longrightarrow> resp_json response = Inr d \<Longrightarrow>
   (\<forall>j<k. \<not> (\<exists>r' d'. httpx_get env (i + j) (card_urls ! j) = Inr r' \<and> status_code r' = 200 \<and>
                        resp_json r' = Inr d')) \<Longrightarrow>
   httpx_gets (fst (fetch_agent_card env i card_urls)) = take (Suc k) card_urls \<and>
   snd (fetch_agent_card env i card_urls) = d"
proof (induction card_urls arbitrary: i k)
  case Nil
  then show ?case by simp
next
  case (Cons url card_urls)
  show ?case
  proof (cases k)
    case 0
    with Cons.prems have "httpx_get env i url = Inr response" by simp
    from fetch_agent_card_found [OF this Cons.prems(3,4)] 0 show ?thesis by simp
  next
    case (Suc k')
    from Cons.prems(5) Suc
    have skip: "\<not> (\<exists>r' d'. httpx_get env i url = Inr r' \<and> status_code r' = 200 \<and>
                        resp_json r' = Inr d')"
      by (auto dest: spec [of _ 0])
    have a: "k' < length card_urls" using Cons.prems(1) Suc by simp
    have b: "httpx_get env (Suc i + k') (card_urls ! k') = Inr response"
      using Cons.prems(2) Suc by simp
    have c: "\<forall>j<k'. \<not> (\<exists>r' d'. httpx_get env (Suc i + j) (card_urls ! j) = Inr r' \<and>
                        status_code r' = 200 \<and> resp_json r' = Inr d')"
    proof (intro allI impI)
      fix j assume "j < k'"
      then have "Suc j < k" using Suc by simp
      from Cons.prems(5) [rule_format, OF this]
      show "\<not> (\<exists>r' d'. httpx_get env (Suc i + j) (card_urls ! j) = Inr r' \<and>
                        status_code r' = 200 \<and> resp_json r' = Inr d')" by simp
    qed
    obtain tr d0 where r: "fetch_agent_card env (Suc i) card_urls = (tr, d0)"
      by (cases "fetch_agent_card env (Suc i) card_urls")
    from Cons.IH [OF a b Cons.prems(3,4) c] r
    have "httpx_gets tr = take (Suc k') card_urls" "d0 = d" by simp_all
    with fetch_agent_card_skip [OF skip] r Suc show ?thesis by simp
  qed
qed

lemma fetch_agent_card_none:
  "(\<forall>j<length card_urls. \<not> (\<exists>r' d'. httpx_get env (i + j) (card_urls ! j) = Inr r' \<and>
        status_code r' = 200 \<and> resp_json r' = Inr d')) \<Longrightarrow>
   httpx_gets (fst (fetch_agent_card env i card_urls)) = card_urls \<and>
   snd (fetch_agent_card env i card_urls) = JNull"
proof (induction card_urls arbitrary: i)
  case Nil
  then show ?case by simp
next
  case (Cons url card_urls)
  from Cons.prems
  have skip: "\<not> (\<exists>r' d'. httpx_get env i url = Inr r' \<and> status_code r' = 200 \<and>
                        resp_json r' = Inr d')"
    by (auto dest: spec [of _ 0])
  have c: "\<forall>j<length card_urls. \<not> (\<exists>r' d'. httpx_get env (Suc i + j) (card_urls ! j) = Inr r' \<and>
                        status_code r' = 200 \<and> resp_json r' = Inr d')"
  proof (intro allI impI)
    fix j assume "j < length card_urls"
    then have "Suc j < length (url # card_urls)" by simp
    from Cons.prems [rule_format, OF this]
    show "\<not> (\<exists>r' d'. httpx_get env (Suc i + j) (card_urls ! j) = Inr r' \<and>
                        status_code r' = 200 \<and> resp_json r' = Inr d')" by simp
  qed
  obtain tr d0 where r: "fetch_agent_card env (Suc i) card_urls = (tr, d0)"
    by (cases "fetch_agent_card env (Suc i) card_urls")
  from Cons.IH [OF c] r have "httpx_gets tr = card_urls" "d0 = JNull" by simp_all
  with fetch_agent_card_skip [OF skip] r show ?case by simp
qed

lemma fetch_agent_card_validated [simp]:
  "validated (fst (fetch_agent_card env i card_urls)) = []"
proof (induction card_urls arbitrary: i)
  case Nil
  then show ?case by simp
next
  case (Cons url card_urls)
  show ?case
  proof (cases "\<exists>response d. httpx_get env i url = Inr response \<and> status_code response = 200 \<and>
                     resp_json response = Inr d")
    case True
    then obtain response d where "httpx_get env i url = Inr response"
      "status_code response = 200" "resp_json response = Inr d" by blast
    from fetch_agent_card_found [OF this] show ?thesis by simp
  next
    case False
    obtain tr d where r: "fetch_agent_card env (Suc i) card_urls = (tr, d)"
      by (cases "fetch_agent_card env (Suc i) card_urls")
    with Cons.IH [of "Suc i"] have "validated tr = []" by simp
    with fetch_agent_card_skip [OF False] r show ?thesis by simp
  qed
qed

lemma dict_set_new: "k \<notin> fst ` set kvs \<Longrightarrow> dict_set kvs k v = kvs @ [(k, v)]"
  by (induction kvs) auto

lemma add_missing_version_object:
  "add_missing_version (JObj kvs) =
     Inr (JObj (if ''version'' \<in> fst ` set kvs then kvs
                else kvs @ [(''version'', JStr ''1.0.0'')]))"
  by (simp add: add_missing_version_def dict_set_new)

text \<open>What \<open>connect\<close> does with the result of the loop over the candidate URLs.\<close>

lemma connect_after_fetch:
  assumes "fetch_agent_card env 0 (get_agent_card_urls (agent_url self)) = (tr, d)"
  shows "httpx_gets (fst (snd (connect env self))) = httpx_gets tr"
    and "validated (fst (snd (connect env self))) =
           (if truthy d then (case add_missing_version d of Inl e \<Rightarrow> [] | Inr d' \<Rightarrow> [d'])
            else [])"
    and "\<not> truthy d \<Longrightarrow> \<not> snd (snd (connect env self))"
    and "truthy d \<Longrightarrow> add_missing_version d = Inr d' \<Longrightarrow> model_validate env d' = Inr agent_card \<Longrightarrow>
         snd (snd (connect env self)) = (\<exists>c. factory_create env agent_card = Inr c)"
proof -
  have v: "validated tr = []"
    using fetch_agent_card_validated [of env 0 "get_agent_card_urls (agent_url self)"] assms
    by simp
  show "httpx_gets (fst (snd (connect env self))) = httpx_gets tr"
    using assms
    by (auto simp: connect_def connect_failed_def Let_def split: sum.split option.split)
  show "validated (fst (snd (connect env self))) =
           (if truthy d then (case add_missing_version d of Inl e \<Rightarrow> [] | Inr d' \<Rightarrow> [d'])
            else [])"
    using assms v
    by (auto simp: connect_def connect_failed_def Let_def split: sum.split option.split)
  show "\<not> truthy d \<Longrightarrow> \<not> snd (snd (connect env self))"
    using assms by (simp add: connect_def Let_def)
  show "truthy d \<Longrightarrow> add_missing_version d = Inr d' \<Longrightarrow> model_validate env d' = Inr agent_card \<Longrightarrow>
         snd (snd (connect env self)) = (\<exists>c. factory_create env agent_card = Inr c)"
    using assms
    by (auto simp: connect_def connect_failed_def Let_def split: sum.split option.split)
qed


lemma example_urls:
  "get_agent_card_urls (agent_url example_client) =
     [''http://localhost:3003/api/rooms/r1/.well-known/agent-card.json'',
      ''http://localhost:3003/rooms/r1/agent-card.json'',
      ''http://localhost:3003/api/rooms/r1/a2a/.well-known/agent-card.json'']"
  by (simp add: example_client_def get_agent_card_urls_def str_replace.simps)


text \<open>
  C5, as the code has it. \<open>connect\<close> sends its GETs to the candidate URLs one after
  the other, in the order of \<open>_get_agent_card_urls\<close>. It skips a candidate whose GET
  raises, whose answer has another status than 200, or whose 200 answer has a body
  that \<open>response.json()\<close> cannot parse; the parsed body of the first other candidate
  is the agent-card data (passed on to the validation after the version fix-up) and no
  GET follows it. \<open>connect\<close> returns \<open>False\<close> when that body is falsy, and when no
  candidate answers 200 with a body that parses, after all candidates were tried.
\<close>

theorem connect_fetches_candidates_in_order:
  assumes "card_urls = get_agent_card_urls (agent_url self)"
    and "tr = fst (snd (connect env self))"
  shows
  "prefix (httpx_gets tr) card_urls \<and>
   (\<forall>k response d.
      k < length card_urls \<longrightarrow>
      httpx_get env k (card_urls ! k) = Inr response \<longrightarrow>
      status_code response = 200 \<longrightarrow>
      resp_json response = Inr d \<longrightarrow>
      (\<forall>j<k. \<not> (\<exists>r' d'. httpx_get env j (card_urls ! j) = Inr r' \<and> status_code r' = 200 \<and>
                          resp_json r' = Inr d')) \<longrightarrow>
      httpx_gets tr = take (Suc k) card_urls \<and>
      validated tr =
        (if truthy d then (case add_missing_version d of Inl e \<Rightarrow> [] | Inr d' \<Rightarrow> [d'])
         else []) \<and>
      (\<not> truthy d \<longrightarrow> \<not> snd (snd (connect env self)))) \<and>
   ((\<forall>j<length card_urls.
        \<not> (\<exists>r' d'. httpx_get env j (card_urls ! j) = Inr r' \<and> status_code r' = 200 \<and>
                    resp_json r' = Inr d')) \<longrightarrow>
      httpx_gets tr = card_urls \<and> \<not> snd (snd (connect env self)))"
proof -
  obtain tr0 d0 where f: "fetch_agent_card env 0 card_urls = (tr0, d0)"
    by (cases "fetch_agent_card env 0 card_urls")
  note after = connect_after_fetch [OF f [unfolded assms(1)], folded assms(2)]
  have gets: "httpx_gets tr = httpx_gets tr0" by (rule after(1))
  have 1: "prefix (httpx_gets tr) card_urls"
    using fetch_agent_card_gets_prefix [of env 0 card_urls] f gets by simp
  have 2: "httpx_gets tr = take (Suc k) card_urls \<and>
      validated tr =
        (if truthy d then (case add_missing_version d of Inl e \<Rightarrow> [] | Inr d' \<Rightarrow> [d'])
         else []) \<and>
      (\<not> truthy d \<longrightarrow> \<not> snd (snd (connect env self)))"
    if "k < length card_urls" "httpx_get env k (card_urls ! k) = Inr response"
      "status_code response = 200" "resp_json response = Inr d"
      "\<forall>j<k. \<not> (\<exists>r' d'. httpx_get env j (card_urls ! j) = Inr r' \<and> status_code r' = 200 \<and>
                          resp_json r' = Inr d')"
    for k response d
  proof -
    from fetch_agent_card_first [of k card_urls env 0 response d] that f
    have "httpx_gets tr0 = take (Suc k) card_urls" "d0 = d" by simp_all
    with gets after(2) after(3) show ?thesis by simp
  qed
  have 3: "httpx_gets tr = card_urls \<and> \<not> snd (snd (connect env self))"
    if "\<forall>j<length card_urls.
        \<not> (\<exists>r' d'. httpx_get env j (card_urls ! j) = Inr r' \<and> status_code r' = 200 \<and>
                    resp_json r' = Inr d')"
  proof -
    from fetch_agent_card_none [of card_urls env 0] that f
    have "httpx_gets tr0 = card_urls" "d0 = JNull" by simp_all
    with gets after(3) show ?thesis by simp
  qed
  from 1 2 3 show ?thesis by blast
qed


theorem connect_fetches_candidates_in_order_witness:
  "httpx_get card_env 0 (get_agent_card_urls (agent_url example_client) ! 0) = Inr card_response \<and>
   status_code card_response = 200 \<and>
   resp_json card_response = Inr unversioned_json \<and>
   httpx_gets (fst (snd (connect card_env example_client))) =
     [''http://localhost:3003/api/rooms/r1/.well-known/agent-card.json''] \<and>
   validated (fst (snd (connect card_env example_client))) =
     [JObj [(''name'', JStr ''Room agent''), (''version'', JStr ''1.0.0'')]] \<and>
   httpx_gets (fst (snd (connect example_env example_client))) =
     get_agent_card_urls (agent_url example_client) \<and>
   \<not> snd (snd (connect example_env example_client))"
proof -
  let ?urls = "get_agent_card_urls (agent_url example_client)"
  have g: "httpx_get card_env 0 (?urls ! 0) = Inr card_response"
    by (simp add: card_env_def)
  have s: "status_code card_response = 200" by (simp add: card_response_def)
  have j: "resp_json card_response = Inr unversioned_json" by (simp add: card_response_def)
  have l: "0 < length ?urls" by (simp add: example_urls)
  have a: "add_missing_version unversioned_json =
             Inr (JObj [(''name'', JStr ''Room agent''), (''version'', JStr ''1.0.0'')])"
    by (simp add: unversioned_json_def add_missing_version_def)
  have t: "truthy unversioned_json" by (simp add: unversioned_json_def)
  note th = connect_fetches_candidates_in_order [OF refl refl, of card_env example_client]
  from th [THEN conjunct2, THEN conjunct1, rule_format, OF l g s j]
  have first: "httpx_gets (fst (snd (connect card_env example_client))) = take (Suc 0) ?urls"
    "validated (fst (snd (connect card_env example_client))) =
       (if truthy unversioned_json
        then (case add_missing_version unversioned_json of Inl e \<Rightarrow> [] | Inr d' \<Rightarrow> [d'])
        else [])"
    by simp_all
  have none: "\<forall>j<length ?urls.
        \<not> (\<exists>r' d'. httpx_get example_env j (?urls ! j) = Inr r' \<and> status_code r' = 200 \<and>
                    resp_json r' = Inr d')"
    by (simp add: example_env_def)
  note th2 = connect_fetches_candidates_in_order [OF refl refl, of example_env example_client]
  from th2 [THEN conjunct2, THEN conjunct2, THEN mp, OF none]
  have last: "httpx_gets (fst (snd (connect example_env example_client))) = ?urls"
    "\<not> snd (snd (connect example_env example_client))"
    by simp_all
  from g s j first a t last show ?thesis by (simp add: example_urls)
qed


text \<open>
  C5 as the spec states it fails: here the first candidate answers 200 with a page
  that is no JSON; \<open>connect\<close> issues a second GET and takes the card from the second
  candidate.
\<close>

theorem connect_first_200_counterexample:
  "httpx_get html_first_env 0 (hd (get_agent_card_urls (agent_url example_client))) =
     Inr html_response \<and>
   status_code html_response = 200 \<and>
   httpx_gets (fst (snd (connect html_first_env example_client))) =
     [''http://localhost:3003/api/rooms/r1/.well-known/agent-card.json'',
      ''http://localhost:3003/rooms/r1/agent-card.json''] \<and>
   validated (fst (snd (connect html_first_env example_client))) =
     [JObj [(''name'', JStr ''Room agent''), (''version'', JStr ''1.0.0'')]]"
proof -
  have f: "fetch_agent_card html_first_env 0 (get_agent_card_urls (agent_url example_client)) =
     ([Print [T ''   Trying: '',
              T ''http://localhost:3003/api/rooms/r1/.well-known/agent-card.json''],
       HttpxGet ''http://localhost:3003/api/rooms/r1/.well-known/agent-card.json'',
       Print [T ''   Trying: '', T ''http://localhost:3003/rooms/r1/agent-card.json''],
       HttpxGet ''http://localhost:3003/rooms/r1/agent-card.json'',
       Print [T ''   '', U 0x2705, T '' Found agent card at: '',
              T ''http://localhost:3003/rooms/r1/agent-card.json'']],
      unversioned_json)"
    by (simp add: example_urls html_first_env_def example_env_def html_response_def
          card_response_def)
  have a: "add_missing_version unversioned_json =
             Inr (JObj [(''name'', JStr ''Room agent''), (''version'', JStr ''1.0.0'')])"
    by (simp add: unversioned_json_def add_missing_version_def)
  have t: "truthy unversioned_json" by (simp add: unversioned_json_def)
  from connect_after_fetch(1,2) [OF f] a t
  show ?thesis
    by (simp add: html_first_env_def example_env_def html_response_def example_urls)
qed

subsection \<open>connect and the validator: the missing version\<close>

lemma validated_validate:
  assumes "requests_get env url = Inr response"
    and "raise_for_status response = Inr ()"
    and "resp_json response = Inr d"
  shows "validated (fst (validate_agent_card_from_url env url)) = [d]"
proof (cases "model_validate env d")
  case (Inl e)
  with fetched_trace [OF assms] show ?thesis
    by (cases e) (simp_all add: validate_agent_card_from_url_def)
next
  case (Inr agent_card)
  obtain tr r where pv: "print_validated agent_card = (tr, r)"
    by (cases "print_validated agent_card")
  have "list_all is_print tr"
    using is_print_print_validated [of agent_card] pv by simp
  with fetched_trace [OF assms] Inr pv show ?thesis
    by (cases r) (simp_all add: validate_agent_card_from_url_def)
qed


text \<open>
  C8. When the JSON object that \<open>connect\<close> fetched has no \<open>version\<close> key, the data
  given to \<open>AgentCard.model_validate\<close> is the object with \<open>'version': '1.0.0'\<close>
  added (an empty object is falsy and never reaches the validation); an object with
  a \<open>version\<close> is validated as it is. The validator gives the fetched data to
  \<open>model_validate\<close> unchanged. So when the SDK accepts the object with the version
  added, \<open>connect\<close> goes on to create the client, and succeeds when that does.
\<close>

theorem connect_adds_missing_version:
  "(snd (fetch_agent_card env 0 (get_agent_card_urls (agent_url self))) = JObj kvs \<longrightarrow>
    ''version'' \<notin> fst ` set kvs \<longrightarrow>
      validated (fst (snd (connect env self))) =
        (if kvs = [] then [] else [JObj (kvs @ [(''version'', JStr ''1.0.0'')])])) \<and>
   (snd (fetch_agent_card env 0 (get_agent_card_urls (agent_url self))) = JObj kvs \<longrightarrow>
    ''version'' \<in> fst ` set kvs \<longrightarrow>
      validated (fst (snd (connect env self))) = [JObj kvs]) \<and>
   (requests_get env url = Inr response \<longrightarrow> raise_for_status response = Inr () \<longrightarrow>
    resp_json response = Inr d \<longrightarrow>
      validated (fst (validate_agent_card_from_url env url)) = [d]) \<and>
   (snd (fetch_agent_card env 0 (get_agent_card_urls (agent_url self))) = JObj kvs \<longrightarrow>
    kvs \<noteq> [] \<longrightarrow> ''version'' \<notin> fst ` set kvs \<longrightarrow>
    model_validate env (JObj (kvs @ [(''version'', JStr ''1.0.0'')])) = Inr agent_card \<longrightarrow>
      snd (snd (connect env self)) = (\<exists>c. factory_create env agent_card = Inr c))"
proof -
  obtain tr0 d0 where f: "fetch_agent_card env 0 (get_agent_card_urls (agent_url self)) = (tr0, d0)"
    by (cases "fetch_agent_card env 0 (get_agent_card_urls (agent_url self))")
  have 1: "validated (fst (snd (connect env self))) =
        (if kvs = [] then [] else [JObj (kvs @ [(''version'', JStr ''1.0.0'')])])"
    if "d0 = JObj kvs" "''version'' \<notin> fst ` set kvs"
    using connect_after_fetch(2) [OF f] that by (simp add: add_missing_version_object)
  have 2: "validated (fst (snd (connect env self))) = [JObj kvs]"
    if "d0 = JObj kvs" "''version'' \<in> fst ` set kvs"
  proof -
    from that(2) have "kvs \<noteq> []" by auto
    with connect_after_fetch(2) [OF f] that show ?thesis
      by (simp add: add_missing_version_object)
  qed
  have 3: "snd (snd (connect env self)) = (\<exists>c. factory_create env agent_card = Inr c)"
    if "d0 = JObj kvs" "kvs \<noteq> []" "''version'' \<notin> fst ` set kvs"
      "model_validate env (JObj (kvs @ [(''version'', JStr ''1.0.0'')])) = Inr agent_card"
  proof -
    have t: "truthy d0" using that(1,2) by simp
    have a: "add_missing_version d0 = Inr (JObj (kvs @ [(''version'', JStr ''1.0.0'')]))"
      using that(1,3) by (simp add: add_missing_version_object)
    from connect_after_fetch(4) [OF f t a that(4)] show ?thesis .
  qed
  from 1 2 3 f validated_validate [of env url response d] show ?thesis by simp
qed

theorem connect_adds_missing_version_witness:
  "snd (fetch_agent_card card_env 0 (get_agent_card_urls (agent_url example_client))) =
     JObj [(''name'', JStr ''Room agent'')] \<and>
   ''version'' \<notin> fst ` set [(''name'', JStr ''Room agent'')] \<and>
   validated (fst (snd (connect card_env example_client))) =
     [JObj [(''name'', JStr ''Room agent''), (''version'', JStr ''1.0.0'')]] \<and>
   requests_get card_env ''http://localhost:3003/rooms/r1/agent-card.json'' = Inr card_response \<and>
   raise_for_status card_response = Inr () \<and>
   resp_json card_response = Inr (JObj [(''name'', JStr ''Room agent'')]) \<and>
   validated (fst (validate_agent_card_from_url card_env
                     ''http://localhost:3003/rooms/r1/agent-card.json'')) =
     [JObj [(''name'', JStr ''Room agent'')]]"
proof -
  let ?kvs = "[(''name'', JStr ''Room agent'')]"
  let ?u = "''http://localhost:3003/rooms/r1/agent-card.json''"
  have f: "snd (fetch_agent_card card_env 0 (get_agent_card_urls (agent_url example_client))) =
             JObj ?kvs"
    by (simp add: example_urls card_env_def card_response_def unversioned_json_def)
  have n: "''version'' \<notin> fst ` set ?kvs" by simp
  have g: "requests_get card_env ?u = Inr card_response" by (simp add: card_env_def)
  have ok: "raise_for_status card_response = Inr ()"
    by (simp add: raise_for_status_def card_response_def)
  have j: "resp_json card_response = Inr (JObj ?kvs)"
    by (simp add: card_response_def unversioned_json_def)
  note th = connect_adds_missing_version
              [of card_env example_client ?kvs ?u card_response "JObj ?kvs" example_card]
  from th [THEN conjunct1, rule_format, OF f n]
  have a: "validated (fst (snd (connect card_env example_client))) =
             [JObj [(''name'', JStr ''Room agent''), (''version'', JStr ''1.0.0'')]]"
    by simp
  from th [THEN conjunct2, THEN conjunct2, THEN conjunct1, rule_format, OF g ok j]
  have b: "validated (fst (validate_agent_card_from_url card_env ?u)) = [JObj ?kvs]" .
  from f n a g ok j b show ?thesis by simp
qed


subsection \<open>poll_for_updates: the loop and one run of its body\<close>

text \<open>
  The three ways through one test of the loop condition; then what one run of the
  body does, by whether its fetch succeeds; then what holds of the whole loop, by
  induction on the number of polls that are left.
\<close>

lemma poll_loop_stop:
  "\<not> pc < max_polls \<Longrightarrow> poll_loop env max_polls interval self pc v tr = (self, pc, v, tr)"
  by (simp add: poll_loop.simps)

lemma poll_loop_break:
  "pc < max_polls \<Longrightarrow> poll_body env interval self (pc + 1) v = (s1, v1, t1, True) \<Longrightarrow>
   poll_loop env max_polls interval self pc v tr = (s1, pc + 1, v1, tr @ t1)"
  by (simp add: poll_loop.simps [of env max_polls interval self pc v tr])

lemma poll_loop_continue:
  "pc < max_polls \<Longrightarrow> poll_body env interval self (pc + 1) v = (s1, v1, t1, False) \<Longrightarrow>
   poll_loop env max_polls interval self pc v tr =
     poll_loop env max_polls interval s1 (pc + 1) v1 (tr @ t1)"
  by (simp add: poll_loop.simps [of env max_polls interval self pc v tr])

lemma is_print_check_stop [simp]: "list_all is_print (fst (snd (check_stop env self task v)))"
  by (simp add: check_stop_def show_message_text_def Let_def split: option.split)

lemma check_stop_self:
  "check_stop env self task v = (s1, t1, b) \<Longrightarrow>
   (if b then s1 = self\<lparr>current_task := Some task\<rparr> \<and>
               state (status task) \<in> {input_required, completed, failed, canceled}
    else s1 = self \<and>
         state (status task) \<notin> {input_required, completed, failed, canceled})"
  by (auto simp: check_stop_def split: if_splits)


lemma poll_body_unfetched:
  "fetched env self n = None \<Longrightarrow>
   \<exists>rest. poll_body env interval self n v =
     (self, v,
      Print [NL, T ''   Poll #'', I n, T '' (waiting '', F interval, T ''s)...'']
        # AsyncioSleep interval # rest,
      False) \<and> sleeps rest = []"
  by (auto simp: fetched_def poll_body_def poll_error_def Let_def split: option.splits sum.splits)

lemma poll_body_fetched:
  assumes "fetched env self n = Some task"
  shows "\<exists>rest v1.
     poll_body env interval self n v =
       (fst (check_stop env self task v1), v1,
        Print [NL, T ''   Poll #'', I n, T '' (waiting '', F interval, T ''s)...'']
          # AsyncioSleep interval # rest,
        snd (snd (check_stop env self task v1))) \<and>
     sleeps rest = [] \<and>
     v1 = (case history task of
             None \<Rightarrow> check_status_message (status task) (v\<lparr>last_state := Some (state (status task))\<rparr>)
           | Some items \<Rightarrow>
               check_history items
                 (check_status_message (status task) (v\<lparr>last_state := Some (state (status task))\<rparr>)))"
proof -
  from assms obtain cur c where a: "current_task self = Some cur" "client self = Some c"
    "get_task env n \<lparr>query_id = task_id cur, history_length = 100\<rparr> = Inr task"
    by (auto simp: fetched_def split: option.splits sum.splits)
  define v1 where "v1 = (case history task of
             None \<Rightarrow> check_status_message (status task) (v\<lparr>last_state := Some (state (status task))\<rparr>)
           | Some items \<Rightarrow>
               check_history items
                 (check_status_message (status task) (v\<lparr>last_state := Some (state (status task))\<rparr>)))"
  obtain s1 t1 b where cs: "check_stop env self task v1 = (s1, t1, b)"
    by (cases "check_stop env self task v1")
  have p: "list_all is_print t1" using is_print_check_stop [of env self task v1] cs by simp
  show ?thesis
    using a cs p unfolding v1_def [symmetric]
    by (simp add: poll_body_def Let_def v1_def [symmetric])
qed

lemma distinct_check_status_message:
  "distinct (messages_received v) \<Longrightarrow> distinct (messages_received (check_status_message st v))"
  by (simp add: check_status_message_def Let_def split: option.split)

lemma distinct_check_history:
  "distinct (messages_received v) \<Longrightarrow> distinct (messages_received (check_history items v))"
  by (induction items arbitrary: v) (simp_all add: Let_def)

lemma poll_body_outcome:
  "\<exists>s1 v1 rest b.
     poll_body env interval self n v =
       (s1, v1,
        Print [NL, T ''   Poll #'', I n, T '' (waiting '', F interval, T ''s)...'']
          # AsyncioSleep interval # rest,
        b) \<and>
     sleeps rest = [] \<and>
     (distinct (messages_received v) \<longrightarrow> distinct (messages_received v1)) \<and>
     (case fetched env self n of
        None \<Rightarrow> \<not> b \<and> s1 = self
      | Some task \<Rightarrow>
          b = (state (status task) \<in> {input_required, completed, failed, canceled}) \<and>
          s1 = (if b then self\<lparr>current_task := Some task\<rparr> else self))"
proof (cases "fetched env self n")
  case None
  from poll_body_unfetched [OF None, of interval v] None show ?thesis by auto
next
  case (Some task)
  from poll_body_fetched [OF Some, of interval v]
  obtain rest v1 where b: "poll_body env interval self n v =
       (fst (check_stop env self task v1), v1,
        Print [NL, T ''   Poll #'', I n, T '' (waiting '', F interval, T ''s)...'']
          # AsyncioSleep interval # rest,
        snd (snd (check_stop env self task v1)))"
    and r: "sleeps rest = []"
    and v1: "v1 = (case history task of
             None \<Rightarrow> check_status_message (status task) (v\<lparr>last_state := Some (state (status task))\<rparr>)
           | Some items \<Rightarrow>
               check_history items
                 (check_status_message (status task) (v\<lparr>last_state := Some (state (status task))\<rparr>)))"
    by blast
  have d: "distinct (messages_received v) \<longrightarrow> distinct (messages_received v1)"
    unfolding v1
    by (auto split: option.split intro!: distinct_check_history distinct_check_status_message)
  obtain s1 t1 b1 where cs: "check_stop env self task v1 = (s1, t1, b1)"
    by (cases "check_stop env self task v1")
  from check_stop_self [OF cs]
  have "b1 = (state (status task) \<in> {input_required, completed, failed, canceled})"
    "s1 = (if b1 then self\<lparr>current_task := Some task\<rparr> else self)"
    by (auto split: if_splits)
  with b r d cs Some show ?thesis by simp
qed

lemma poll_loop_props:
  "poll_loop env max_polls interval self pc v tr = (self', pc', v', tr') \<Longrightarrow>
   pc \<le> pc' \<and> pc' \<le> max pc max_polls \<and>
   sleeps tr' = sleeps tr @ replicate (nat (pc' - pc)) interval \<and>
   (distinct (messages_received v) \<longrightarrow> distinct (messages_received v')) \<and>
   (pc' < max_polls \<longrightarrow>
      (\<exists>task. fetched env self pc' = Some task \<and>
              state (status task) \<in> {input_required, completed, failed, canceled} \<and>
              self' = self\<lparr>current_task := Some task\<rparr>)) \<and>
   (\<forall>n task. pc < n \<longrightarrow> fetched env self n = Some task \<longrightarrow>
      state (status task) \<in> {input_required, completed, failed, canceled} \<longrightarrow> pc' \<le> n)"
proof (induction "nat (max_polls - pc)" arbitrary: pc v tr)
  case 0
  then have "\<not> pc < max_polls" by simp
  from poll_loop_stop [OF this, of env interval self v tr] "0.prems"
  have "self' = self" "pc' = pc" "v' = v" "tr' = tr" by simp_all
  with \<open>\<not> pc < max_polls\<close> show ?case by simp
next
  case (Suc k)
  then have lt: "pc < max_polls" by simp
  from poll_body_outcome [of env interval self "pc + 1" v]
  obtain s1 v1 rest b where
    body: "poll_body env interval self (pc + 1) v =
       (s1, v1,
        Print [NL, T ''   Poll #'', I (pc + 1), T '' (waiting '', F interval, T ''s)...'']
          # AsyncioSleep interval # rest,
        b)"
    and r: "sleeps rest = []"
    and d: "distinct (messages_received v) \<longrightarrow> distinct (messages_received v1)"
    and f: "case fetched env self (pc + 1) of
        None \<Rightarrow> \<not> b \<and> s1 = self
      | Some task \<Rightarrow>
          b = (state (status task) \<in> {input_required, completed, failed, canceled}) \<and>
          s1 = (if b then self\<lparr>current_task := Some task\<rparr> else self)"
    by blast
  let ?t1 = "Print [NL, T ''   Poll #'', I (pc + 1), T '' (waiting '', F interval, T ''s)...'']
          # AsyncioSleep interval # rest"
  have st: "sleeps (tr @ ?t1) = sleeps tr @ [interval]" using r by simp
  show ?case
  proof (cases b)
    case True
    with f obtain task where t: "fetched env self (pc + 1) = Some task"
      "state (status task) \<in> {input_required, completed, failed, canceled}"
      "s1 = self\<lparr>current_task := Some task\<rparr>"
      by (auto split: option.splits)
    from body True have body': "poll_body env interval self (pc + 1) v = (s1, v1, ?t1, True)"
      by simp
    from poll_loop_break [OF lt body', of tr] Suc.prems
    have res: "self' = s1" "pc' = pc + 1" "v' = v1" "tr' = tr @ ?t1" by simp_all
    have "nat (pc' - pc) = 1" using res by simp
    with res st d t lt show ?thesis by auto
  next
    case False
    with f have s1: "s1 = self" by (auto split: option.splits)
    from False f have nostop: "\<And>task. fetched env self (pc + 1) = Some task \<Longrightarrow>
        state (status task) \<notin> {input_required, completed, failed, canceled}"
      by (auto split: option.splits)
    from body False s1
    have body': "poll_body env interval self (pc + 1) v = (self, v1, ?t1, False)"
      by simp
    from poll_loop_continue [OF lt body', of tr] Suc.prems
    have loop: "poll_loop env max_polls interval self (pc + 1) v1 (tr @ ?t1) =
                  (self', pc', v', tr')" by simp
    have k: "k = nat (max_polls - (pc + 1))" using Suc.hyps(2) by simp
    note ih = Suc.hyps(1) [OF k loop]
    from ih have le: "pc + 1 \<le> pc'" by simp
    have n: "nat (pc' - pc) = Suc (nat (pc' - (pc + 1)))" using le by simp
    have a: "pc \<le> pc'" using le by simp
    have b: "pc' \<le> max pc max_polls" using ih lt by simp
    have c: "sleeps tr' = sleeps tr @ replicate (nat (pc' - pc)) interval"
      using ih st n by simp
    have d': "distinct (messages_received v) \<longrightarrow> distinct (messages_received v')"
      using ih d by simp
    have e: "pc' < max_polls \<longrightarrow>
      (\<exists>task. fetched env self pc' = Some task \<and>
              state (status task) \<in> {input_required, completed, failed, canceled} \<and>
              self' = self\<lparr>current_task := Some task\<rparr>)"
      using ih by simp
    have g: "pc' \<le> n" if "pc < n" "fetched env self n = Some task"
      "state (status task) \<in> {input_required, completed, failed, canceled}" for n task
    proof (cases "n = pc + 1")
      case True
      with nostop that show ?thesis by blast
    next
      case False
      with that(1) have "pc + 1 < n" by simp
      with ih that(2,3) show ?thesis by blast
    qed
    from a b c d' e g show ?thesis by blast
  qed
qed

lemma fetched_completing:
  "fetched completing_env example_client n =
     Some (example_task (if n < 3 then working else completed))"
  by (simp add: fetched_def completing_env_def example_client_def example_env_def)


lemma fetched_waiting:
  "fetched waiting_env example_client n = Some (example_task input_required)"
  by (simp add: fetched_def waiting_env_def example_client_def example_env_def)


text \<open>
  C1, as the code has it. When the loop ends before \<open>poll_count\<close> reaches
  \<open>max_polls\<close>, its last poll fetched a task whose state is \<open>input_required\<close>,
  \<open>completed\<close>, \<open>failed\<close> or \<open>canceled\<close>, and that task is the client's
  \<open>current_task\<close>. And a poll whose fetch succeeds with one of these four states is
  the last one: the loop never runs beyond it.
\<close>

theorem poll_loop_exits_early_on_stop_states:
  assumes "poll_loop env max_polls interval self 0 init_vars [] = (self', poll_count, v', tr')"
  shows
  "(poll_count < max_polls \<longrightarrow>
      (\<exists>task. fetched env self poll_count = Some task \<and>
              state (status task) \<in> {input_required, completed, failed, canceled} \<and>
              current_task self' = Some task)) \<and>
   (\<forall>n task. 0 < n \<longrightarrow> fetched env self n = Some task \<longrightarrow>
      state (status task) \<in> {input_required, completed, failed, canceled} \<longrightarrow>
      poll_count \<le> n)"
proof -
  note p = poll_loop_props [OF assms]
  have 1: "poll_count < max_polls \<longrightarrow>
      (\<exists>task. fetched env self poll_count = Some task \<and>
              state (status task) \<in> {input_required, completed, failed, canceled} \<and>
              current_task self' = Some task)"
  proof
    assume "poll_count < max_polls"
    with p obtain task where "fetched env self poll_count = Some task"
      "state (status task) \<in> {input_required, completed, failed, canceled}"
      "self' = self\<lparr>current_task := Some task\<rparr>" by blast
    then show "\<exists>task. fetched env self poll_count = Some task \<and>
              state (status task) \<in> {input_required, completed, failed, canceled} \<and>
              current_task self' = Some task" by simp
  qed
  from p have 2: "\<forall>n task. 0 < n \<longrightarrow> fetched env self n = Some task \<longrightarrow>
      state (status task) \<in> {input_required, completed, failed, canceled} \<longrightarrow>
      poll_count \<le> n" by blast
  from 1 2 show ?thesis by blast
qed


theorem poll_loop_exits_early_on_stop_states_witness:
  "fst (snd (poll_loop completing_env 10 2 example_client 0 init_vars [])) = 3 \<and>
   fetched completing_env example_client 3 = Some (example_task completed) \<and>
   current_task (fst (poll_loop completing_env 10 2 example_client 0 init_vars [])) =
     Some (example_task completed)"
proof -
  let ?L = "poll_loop completing_env 10 2 example_client 0 init_vars []"
  have L: "?L = (fst ?L, fst (snd ?L), fst (snd (snd ?L)), snd (snd (snd ?L)))" by simp
  note th = poll_loop_exits_early_on_stop_states [OF L]
  have f3: "fetched completing_env example_client 3 = Some (example_task completed)"
    by (simp add: fetched_completing)
  have s3: "state (status (example_task completed)) \<in> {input_required, completed, failed, canceled}"
    by (simp add: example_task_def)
  from th [THEN conjunct2, rule_format, OF _ f3 s3] have le: "fst (snd ?L) \<le> 3" by simp
  then have lt: "fst (snd ?L) < 10" by simp
  from th [THEN conjunct1, rule_format, OF lt]
  obtain task where t: "fetched completing_env example_client (fst (snd ?L)) = Some task"
    "state (status task) \<in> {input_required, completed, failed, canceled}"
    "current_task (fst ?L) = Some task" by blast
  have ge: "\<not> fst (snd ?L) < 3"
  proof
    assume "fst (snd ?L) < 3"
    with t(1) have "task = example_task working" by (simp add: fetched_completing)
    with t(2) show False by (simp add: example_task_def)
  qed
  with le have eq: "fst (snd ?L) = 3" by simp
  with t(1) f3 have "task = example_task completed" by simp
  with eq f3 t(3) show ?thesis by simp
qed


text \<open>
  C1 as the spec states it fails: with a task that waits for input the loop ends after
  its first poll, well before the maximum of 10, and \<open>input_required\<close> is none of
  \<open>completed\<close>, \<open>failed\<close>, \<open>canceled\<close>.
\<close>

theorem poll_loop_input_required_counterexample:
  "fst (snd (poll_loop waiting_env 10 2 example_client 0 init_vars [])) = 1 \<and>
   (1::int) < 10 \<and>
   fetched waiting_env example_client 1 = Some (example_task input_required) \<and>
   state (status (example_task input_required)) \<notin> {completed, failed, canceled}"
proof -
  from poll_body_outcome [of waiting_env 2 example_client "0 + 1" init_vars]
  obtain s1 v1 t1 b where
    body: "poll_body waiting_env 2 example_client (0 + 1) init_vars = (s1, v1, t1, b)"
    and f: "case fetched waiting_env example_client (0 + 1) of
        None \<Rightarrow> \<not> b \<and> s1 = example_client
      | Some task \<Rightarrow>
          b = (state (status task) \<in> {input_required, completed, failed, canceled}) \<and>
          s1 = (if b then example_client\<lparr>current_task := Some task\<rparr> else example_client)"
    by blast
  from f have b by (simp add: fetched_waiting example_task_def)
  with body have "poll_body waiting_env 2 example_client (0 + 1) init_vars = (s1, v1, t1, True)"
    by simp
  from poll_loop_break [OF _ this, of 10 "[]"]
  have "fst (snd (poll_loop waiting_env 10 2 example_client 0 init_vars [])) = 1" by simp
  then show ?thesis by (simp add: fetched_waiting example_task_def)
qed

text \<open>
  C2. Without a current task \<open>poll_for_updates\<close> returns at once, with no event at
  all. Otherwise the body runs \<open>poll_count\<close> times, which is at most \<open>max_polls\<close>
  (not at all when \<open>max_polls\<close> is not positive); each run starts by announcing the
  poll and sleeping \<open>interval\<close> seconds, and sleeps nowhere else, so the sleeps of a
  call are \<open>poll_count\<close> sleeps of exactly \<open>interval\<close>. The defaults are 10 polls and
  2.0 seconds. The function returns for every answer of the server: the loop is
  defined by recursion on \<open>max_polls - poll_count\<close>, and every \<open>await\<close> is taken to
  return.
\<close>

theorem poll_for_updates_bounded:
  "(current_task self = None \<longrightarrow> poll_for_updates env self max_polls interval = (self, [])) \<and>
   (\<exists>n. sleeps (snd (poll_for_updates env self max_polls interval)) = replicate n interval \<and>
        int n \<le> max 0 max_polls) \<and>
   sleeps (snd (snd (snd (poll_loop env max_polls interval self 0 init_vars [])))) =
     replicate (nat (fst (snd (poll_loop env max_polls interval self 0 init_vars [])))) interval \<and>
   0 \<le> fst (snd (poll_loop env max_polls interval self 0 init_vars [])) \<and>
   fst (snd (poll_loop env max_polls interval self 0 init_vars [])) \<le> max 0 max_polls \<and>
   (\<exists>rest. fst (snd (snd (poll_body env interval self k v))) =
             Print [NL, T ''   Poll #'', I k, T '' (waiting '', F interval, T ''s)...'']
               # AsyncioSleep interval # rest \<and>
           sleeps rest = []) \<and>
   poll_for_updates_default env self = poll_for_updates env self 10 2"
proof -
  let ?L = "poll_loop env max_polls interval self 0 init_vars []"
  have L: "?L = (fst ?L, fst (snd ?L), fst (snd (snd ?L)), snd (snd (snd ?L)))" by simp
  from poll_loop_props [OF L]
  have a: "0 \<le> fst (snd ?L)" "fst (snd ?L) \<le> max 0 max_polls"
    "sleeps (snd (snd (snd ?L))) = replicate (nat (fst (snd ?L))) interval"
    by simp_all
  have 1: "current_task self = None \<longrightarrow> poll_for_updates env self max_polls interval = (self, [])"
    by (simp add: poll_for_updates_def)
  have s: "sleeps (snd (poll_for_updates env self max_polls interval)) =
             (if current_task self = None then [] else replicate (nat (fst (snd ?L))) interval)"
    using a(3) by (cases ?L) (simp add: poll_for_updates_def split: option.split)
  have 2: "\<exists>n. sleeps (snd (poll_for_updates env self max_polls interval)) = replicate n interval \<and>
        int n \<le> max 0 max_polls"
  proof (cases "current_task self = None")
    case True
    with s have "sleeps (snd (poll_for_updates env self max_polls interval)) = replicate 0 interval \<and>
        int 0 \<le> max 0 max_polls" by simp
    then show ?thesis by blast
  next
    case False
    with s a(1,2)
    have "sleeps (snd (poll_for_updates env self max_polls interval)) =
            replicate (nat (fst (snd ?L))) interval \<and>
          int (nat (fst (snd ?L))) \<le> max 0 max_polls" by simp
    then show ?thesis by blast
  qed
  from poll_body_outcome [of env interval self k v]
  have 3: "\<exists>rest. fst (snd (snd (poll_body env interval self k v))) =
             Print [NL, T ''   Poll #'', I k, T '' (waiting '', F interval, T ''s)...'']
               # AsyncioSleep interval # rest \<and>
           sleeps rest = []"
    by auto
  have 4: "poll_for_updates_default env self = poll_for_updates env self 10 2"
    by (simp add: poll_for_updates_default_def)
  from 1 2 a 3 4 show ?thesis by blast
qed

theorem poll_for_updates_bounded_witness:
  "current_task (example_client\<lparr>current_task := None\<rparr>) = None \<and>
   poll_for_updates example_env (example_client\<lparr>current_task := None\<rparr>) 10 2 =
     (example_client\<lparr>current_task := None\<rparr>, []) \<and>
   length (sleeps (snd (poll_for_updates_default example_env example_client))) \<le> 10 \<and>
   set (sleeps (snd (poll_for_updates_default example_env example_client))) \<subseteq> {2}"
proof -
  have n: "current_task (example_client\<lparr>current_task := None\<rparr>) = None" by simp
  from poll_for_updates_bounded
         [of "example_client\<lparr>current_task := None\<rparr>" example_env 10 2, THEN conjunct1,
          THEN mp, OF n]
  have a: "poll_for_updates example_env (example_client\<lparr>current_task := None\<rparr>) 10 2 =
     (example_client\<lparr>current_task := None\<rparr>, [])" .
  from poll_for_updates_bounded [of example_client example_env 10 2]
  obtain k where k: "sleeps (snd (poll_for_updates example_env example_client 10 2)) =
      replicate k 2" "int k \<le> max 0 10"
    by blast
  from poll_for_updates_bounded [of example_client example_env 10 2]
  have d: "poll_for_updates_default example_env example_client =
           poll_for_updates example_env example_client 10 2" by blast
  from n a k d show ?thesis by (auto simp: set_replicate_conv_if)
qed


text \<open>
  C3. \<open>messages_received\<close> never holds an identifier twice: the list is empty at the
  start, and each step that can append to it (the status message, every entry of the
  history, and so one run of the body and the whole loop) keeps a list without
  duplicates free of them.
\<close>

theorem messages_received_distinct:
  "(distinct (messages_received v) \<longrightarrow>
      distinct (messages_received (check_status_message st v))) \<and>
   (distinct (messages_received v) \<longrightarrow>
      distinct (messages_received (check_history items v))) \<and>
   (distinct (messages_received v) \<longrightarrow>
      distinct (messages_received (fst (snd (poll_body env interval self n v))))) \<and>
   (distinct (messages_received v) \<longrightarrow>
      distinct (messages_received
                  (fst (snd (snd (poll_loop env max_polls interval self pc v tr)))))) \<and>
   distinct (messages_received
               (fst (snd (snd (poll_loop env max_polls interval self 0 init_vars [])))))"
proof -
  have L: "poll_loop env max_polls interval self pc v tr =
             (fst (poll_loop env max_polls interval self pc v tr),
              fst (snd (poll_loop env max_polls interval self pc v tr)),
              fst (snd (snd (poll_loop env max_polls interval self pc v tr))),
              snd (snd (snd (poll_loop env max_polls interval self pc v tr))))"
    for pc v tr by simp
  from poll_body_outcome [of env interval self n v]
  have 3: "distinct (messages_received v) \<longrightarrow>
      distinct (messages_received (fst (snd (poll_body env interval self n v))))"
    by auto
  from poll_loop_props [OF L [of pc v tr]]
  have 4: "distinct (messages_received v) \<longrightarrow>
      distinct (messages_received
                  (fst (snd (snd (poll_loop env max_polls interval self pc v tr)))))"
    by blast
  from poll_loop_props [OF L [of 0 init_vars "[]"]]
  have 5: "distinct (messages_received
               (fst (snd (snd (poll_loop env max_polls interval self 0 init_vars [])))))"
    by (simp add: init_vars_def)
  from distinct_check_status_message [of v st] distinct_check_history [of v items] 3 4 5
  show ?thesis by blast
qed

theorem messages_received_distinct_witness:
  "distinct (messages_received (init_vars\<lparr>messages_received := [''m1'']\<rparr>)) \<and>
   messages_received
     (check_status_message \<lparr>state = working, message = Some (example_message ''m1'' agent)\<rparr>
        (init_vars\<lparr>messages_received := [''m1'']\<rparr>)) = [''m1''] \<and>
   messages_received
     (check_history
        [example_message ''m1'' agent, example_message ''m2'' user, example_message ''m2'' agent]
        (init_vars\<lparr>messages_received := [''m1'']\<rparr>)) = [''m1'', ''m2''] \<and>
   distinct (messages_received
     (check_history
        [example_message ''m1'' agent, example_message ''m2'' user, example_message ''m2'' agent]
        (init_vars\<lparr>messages_received := [''m1'']\<rparr>)))"
proof -
  let ?v = "init_vars\<lparr>messages_received := [''m1'']\<rparr>"
  let ?items = "[example_message ''m1'' agent, example_message ''m2'' user,
                 example_message ''m2'' agent]"
  have d: "distinct (messages_received ?v)" by simp
  from messages_received_distinct [of ?v _ ?items, THEN conjunct2, THEN conjunct1, THEN mp, OF d]
  have h: "distinct (messages_received (check_history ?items ?v))" .
  have a: "messages_received
     (check_status_message \<lparr>state = working, message = Some (example_message ''m1'' agent)\<rparr> ?v) =
       [''m1'']"
    by (simp add: check_status_message_def example_message_def init_vars_def)
  have b: "messages_received (check_history ?items ?v) = [''m1'', ''m2'']"
    by (simp add: example_message_def init_vars_def)
  from d h a b show ?thesis by simp
qed

end
